theory Spec2Isabelle
  imports Main
begin

section \<open>JavaScript values\<close>

text \<open>
  The two hacks of the repository (\<open>narrat jump\<close> and \<open>save\<close>) are JavaScript that reads
  and writes the objects of the bitsy engine. \<open>load\<close> copies whatever \<open>JSON.parse\<close>
  returns into the engine without a check, so the values of the model are untyped, as
  they are in the source.

  Numbers are the integer-valued doubles and the three values that are not finite
  (the default of \<open>hackOptions.autosaveInterval\<close> is \<open>Infinity\<close>); fractions and the
  negative zero are not modelled. An object is the list of its own properties in the
  order in which it enumerates them.
\<close>

datatype jsnum = Fin int | PosInf | NegInf | NaN

datatype jsval =
    Undefined
  | Null
  | Bool bool
  | Num jsnum
  | Str string
  | Arr "jsval list"
  | Obj "(string \<times> jsval) list"

datatype error = TypeError | SyntaxError

text \<open>Truthiness, as \<open>if (v)\<close>, \<open>!v\<close> and \<open>a && b\<close> test it.\<close>

fun truthy :: "jsval \<Rightarrow> bool" where
  "truthy Undefined = False"
| "truthy Null = False"
| "truthy (Bool b) = b"
| "truthy (Num (Fin n)) = (n \<noteq> 0)"
| "truthy (Num NaN) = False"
| "truthy (Num PosInf) = True"
| "truthy (Num NegInf) = True"
| "truthy (Str s) = (s \<noteq> [])"
| "truthy (Arr xs) = True"
| "truthy (Obj ps) = True"

text \<open>The comparison \<open>a < b\<close> of two numbers: false as soon as one of them is \<open>NaN\<close>.\<close>

fun lt_num :: "jsnum \<Rightarrow> jsnum \<Rightarrow> bool" where
  "lt_num NaN b = False"
| "lt_num a NaN = False"
| "lt_num a NegInf = False"
| "lt_num PosInf b = False"
| "lt_num NegInf b = True"
| "lt_num (Fin m) PosInf = True"
| "lt_num (Fin m) (Fin n) = (m < n)"

fun is_primitive :: "jsval \<Rightarrow> bool" where
  "is_primitive (Arr xs) = False"
| "is_primitive (Obj ps) = False"
| "is_primitive v = True"

subsection \<open>Property keys\<close>

function show_nat :: "nat \<Rightarrow> string" where
  "show_nat n =
     (if n < 10 then [''0123456789'' ! n]
      else show_nat (n div 10) @ [''0123456789'' ! (n mod 10)])"
  by pat_completeness auto
termination
  by (relation "measure id") auto

declare show_nat.simps [simp del]

definition show_int :: "int \<Rightarrow> string" where
  "show_int i = (if i < 0 then CHR ''-'' # show_nat (nat (- i)) else show_nat (nat i))"

text \<open>
  \<open>ToString\<close>, which turns the value between the brackets of \<open>o[v]\<close> into a property
  name. An integer is written in decimal (JavaScript does so below \<open>10\<close> to the power
  \<open>21\<close>). An array joins its elements with commas, \<open>null\<close> and \<open>undefined\<close> elements as
  the empty string.
\<close>

fun ToString :: "jsval \<Rightarrow> string" and join_elems :: "jsval list \<Rightarrow> string" where
  "ToString Undefined = ''undefined''"
| "ToString Null = ''null''"
| "ToString (Bool b) = (if b then ''true'' else ''false'')"
| "ToString (Num (Fin n)) = show_int n"
| "ToString (Num PosInf) = ''Infinity''"
| "ToString (Num NegInf) = ''-Infinity''"
| "ToString (Num NaN) = ''NaN''"
| "ToString (Str s) = s"
| "ToString (Arr xs) = join_elems xs"
| "ToString (Obj ps) = ''[object Object]''"
| "join_elems [] = []"
| "join_elems [Undefined] = []"
| "join_elems [Null] = []"
| "join_elems [v] = ToString v"
| "join_elems (Undefined # w # vs) = CHR '','' # join_elems (w # vs)"
| "join_elems (Null # w # vs) = CHR '','' # join_elems (w # vs)"
| "join_elems (v # w # vs) = ToString v @ CHR '','' # join_elems (w # vs)"


subsection \<open>Reading properties\<close>

text \<open>
  \<open>v.name\<close>, for the names the hack reads from a snapshot (\<open>room\<close>, \<open>x\<close>, \<open>y\<close>,
  \<open>inventory\<close>, \<open>items\<close>, \<open>variables\<close>, \<open>sequenceIndices\<close>, \<open>shuffles\<close>). None of them is
  an index, \<open>length\<close> or a name that a prototype provides, so only an object has them;
  on \<open>null\<close> and \<open>undefined\<close> the read throws.
\<close>

fun get_prop :: "jsval \<Rightarrow> string \<Rightarrow> error + jsval" where
  "get_prop Undefined name = Inl TypeError"
| "get_prop Null name = Inl TypeError"
| "get_prop (Obj ps) name = Inr (case map_of ps name of None \<Rightarrow> Undefined | Some v \<Rightarrow> v)"
| "get_prop v name = Inr Undefined"

text \<open>\<open>xs[i]\<close> on an array: \<open>undefined\<close> out of range.\<close>

definition arr_index :: "jsval list \<Rightarrow> nat \<Rightarrow> jsval" where
  "arr_index xs i = (if i < length xs then xs ! i else Undefined)"

text \<open>\<open>v[i]\<close> for a literal index \<open>i\<close>, on any value.\<close>

fun get_index :: "jsval \<Rightarrow> nat \<Rightarrow> error + jsval" where
  "get_index Undefined i = Inl TypeError"
| "get_index Null i = Inl TypeError"
| "get_index (Arr xs) i = Inr (arr_index xs i)"
| "get_index (Str s) i = Inr (if i < length s then Str [s ! i] else Undefined)"
| "get_index (Obj ps) i =
     Inr (case map_of ps (show_nat i) of None \<Rightarrow> Undefined | Some v \<Rightarrow> v)"
| "get_index v i = Inr Undefined"

text \<open>
  \<open>o[k] = v\<close> on the property list of an object, and \<open>m.set(k, v)\<close> on the entries of
  a \<open>Map\<close>: an existing key keeps its place, a new one is added last (in an object, a
  new name that is not an index).
\<close>

fun put :: "('k \<times> 'v) list \<Rightarrow> 'k \<Rightarrow> 'v \<Rightarrow> ('k \<times> 'v) list" where
  "put [] k v = [(k, v)]"
| "put ((k', v') # ps) k v = (if k' = k then (k, v) # ps else (k', v') # put ps k v)"

text \<open>
  The names every object created by \<open>{}\<close> inherits from \<open>Object.prototype\<close>. The engine's
  \<open>room\<close> table is such an object, so \<open>bitsy.room[name]\<close> is never \<open>undefined\<close> for them:
  it is a built-in function or object, which is not part of the state here.
\<close>

definition inherited :: "string list" where
  "inherited =
     [''constructor'', ''hasOwnProperty'', ''isPrototypeOf'', ''propertyIsEnumerable'',
      ''toLocaleString'', ''toString'', ''valueOf'', ''__proto__'',
      ''__defineGetter__'', ''__defineSetter__'', ''__lookupGetter__'', ''__lookupSetter__'']"

subsection \<open>JSON and localStorage\<close>

text \<open>
  \<open>localStorage\<close> maps keys to strings. \<open>load\<close> looks at a stored string in two ways
  only, \<open>!snapshot\<close> and \<open>JSON.parse(snapshot)\<close>, so a stored string is represented by what
  these two see: \<open>JsonText v\<close> is a JSON text that parses to \<open>v\<close> (never the empty
  string), \<open>OtherText s\<close> is the string \<open>s\<close> when it is not a JSON text.
\<close>

datatype stored = JsonText jsval | OtherText string

text \<open>
  What \<open>JSON.stringify\<close> keeps of a value: a number that is not finite becomes \<open>null\<close>,
  an \<open>undefined\<close> array element becomes \<open>null\<close>, and a property whose value is
  \<open>undefined\<close> is left out.
\<close>

fun to_json :: "jsval \<Rightarrow> jsval"
  and to_json_elems :: "jsval list \<Rightarrow> jsval list"
  and to_json_props :: "(string \<times> jsval) list \<Rightarrow> (string \<times> jsval) list" where
  "to_json (Num (Fin n)) = Num (Fin n)"
| "to_json (Num PosInf) = Null"
| "to_json (Num NegInf) = Null"
| "to_json (Num NaN) = Null"
| "to_json (Arr xs) = Arr (to_json_elems xs)"
| "to_json (Obj ps) = Obj (to_json_props ps)"
| "to_json Undefined = Undefined"
| "to_json Null = Null"
| "to_json (Bool b) = Bool b"
| "to_json (Str s) = Str s"
| "to_json_elems [] = []"
| "to_json_elems (Undefined # xs) = Null # to_json_elems xs"
| "to_json_elems (x # xs) = to_json x # to_json_elems xs"
| "to_json_props [] = []"
| "to_json_props ((k, Undefined) # ps) = to_json_props ps"
| "to_json_props ((k, v) # ps) = (k, to_json v) # to_json_props ps"

text \<open>
  \<open>JSON.stringify(v)\<close> as \<open>localStorage.setItem\<close> stores it. For \<open>undefined\<close> the
  result is \<open>undefined\<close>, which the store converts to the string \<open>undefined\<close>.
\<close>

definition JSON_stringify :: "jsval \<Rightarrow> stored" where
  "JSON_stringify v =
     (case v of Undefined \<Rightarrow> OtherText ''undefined'' | _ \<Rightarrow> JsonText (to_json v))"

fun JSON_parse :: "stored \<Rightarrow> error + jsval" where
  "JSON_parse (JsonText v) = Inr v"
| "JSON_parse (OtherText s) = Inl SyntaxError"

text \<open>The values that \<open>JSON.parse\<close> can return.\<close>

fun is_json :: "jsval \<Rightarrow> bool"
  and is_json_elems :: "jsval list \<Rightarrow> bool"
  and is_json_props :: "(string \<times> jsval) list \<Rightarrow> bool" where
  "is_json Undefined = False"
| "is_json Null = True"
| "is_json (Bool b) = True"
| "is_json (Num (Fin n)) = True"
| "is_json (Num PosInf) = False"
| "is_json (Num NegInf) = False"
| "is_json (Num NaN) = False"
| "is_json (Str s) = True"
| "is_json (Arr xs) = is_json_elems xs"
| "is_json (Obj ps) = is_json_props ps"
| "is_json_elems [] = True"
| "is_json_elems (x # xs) = (is_json x \<and> is_json_elems xs)"
| "is_json_props [] = True"
| "is_json_props ((k, v) # ps) = (is_json v \<and> is_json_props ps)"


section \<open>The state the hacks read and write\<close>

text \<open>
  \<open>hackOptions\<close> of the save hack. The flags are booleans, the interval a number and
  the key a string, as the file declares them.
\<close>

record hack_options =
  autosaveInterval :: jsnum
  loadOnStart :: bool
  clearOnEnd :: bool
  clearOnStart :: bool
  position :: bool
  variables :: bool
  items :: bool
  dialog :: bool
  key :: string

definition default_options :: hack_options where
  "default_options =
     \<lparr> autosaveInterval = PosInf, loadOnStart = True, clearOnEnd = False,
       clearOnStart = False, position = True, variables = True, items = True,
       dialog = True, key = ''snapshot'' \<rparr>"

text \<open>
  The part of the engine that the hacks touch. \<open>player_x\<close>, \<open>player_y\<close>, \<open>player_room\<close>
  and \<open>player_inventory\<close> are the fields \<open>x\<close>, \<open>y\<close>, \<open>room\<close> and \<open>inventory\<close> of the
  sprite that \<open>bitsy.player()\<close> returns. \<open>room\<close> is the table \<open>bitsy.room\<close>, from a room's
  id to the \<open>items\<close> of that room (the only property of a room that the hack reads or
  writes). \<open>sequenceIndices\<close> and \<open>shuffles\<close> are the two tables of \<open>bitsy.saveHack\<close>;
  the hack patches the source text of the engine so that its sequences and shuffles
  keep them up to date, which is outside this model. The fields that \<open>load\<close> assigns are
  untyped, since \<open>load\<close> assigns whatever it finds.
\<close>

record engine =
  curRoom :: jsval
  player_x :: jsval
  player_y :: jsval
  player_room :: jsval
  player_inventory :: jsval
  room :: "(string \<times> jsval) list"
  variableMap :: "(jsval \<times> jsval) list"
  sequenceIndices :: jsval
  shuffles :: jsval
  isEnding :: bool

text \<open>
  Modelled from the spec: the variable store of the engine's script interpreter
  (\<open>GetVariableNames\<close>, \<open>GetVariable\<close>, \<open>SetVariable\<close>), which is not part of the
  repository. The spec calls it a mapping from a variable's name to its value; the
  engine keeps it in a \<open>Map\<close>, which enumerates its keys in the order of their first
  insertion. A \<open>Map\<close> compares arrays and objects by identity, so a name that is a
  freshly parsed array or object is always a new key.
\<close>

definition GetVariableNames :: "engine \<Rightarrow> jsval list" where
  "GetVariableNames b = map fst (variableMap b)"

definition GetVariable :: "engine \<Rightarrow> jsval \<Rightarrow> jsval" where
  "GetVariable b name = (case map_of (variableMap b) name of None \<Rightarrow> Undefined | Some v \<Rightarrow> v)"

definition SetVariable :: "jsval \<Rightarrow> jsval \<Rightarrow> engine \<Rightarrow> engine" where
  "SetVariable name v b =
     b\<lparr>variableMap :=
         (if is_primitive name then put (variableMap b) name v
          else variableMap b @ [(name, v)])\<rparr>"

text \<open>
  Everything else: the options, the browser's store, the timers that run \<open>save\<close>
  (\<open>autosaveTimer\<close> is the module's variable \<open>autosaveInterval\<close>, the handle of the last
  timer it started; \<open>intervals\<close> are the running timers, each with its delay), the
  warnings written to the console and the labels passed to \<open>window.narrat.jump\<close>.
\<close>

record world =
  hackOptions :: hack_options
  bitsy :: engine
  localStorage :: "string \<Rightarrow> stored option"
  autosaveTimer :: "nat option"
  intervals :: "(nat \<times> jsnum) list"
  timer_ids :: nat
  console :: "string list"
  narrat_jumps :: "jsval list"

section \<open>The narrat hack\<close>

text \<open>
  \<open>console.warn\<close> adds a line to the console. \<open>window.narrat.jump\<close> is the host's; the
  page the hack is loaded into has it, and a call of it is recorded with its argument.
\<close>

definition narratJump :: "jsval \<Rightarrow> world \<Rightarrow> world" where
  "narratJump targetLabel w =
     (if \<not> truthy targetLabel
      then w\<lparr>console := console w @ [''Tried to jump to narrat label, but no label'']\<rparr>
      else w\<lparr>narrat_jumps := narrat_jumps w @ [targetLabel]\<rparr>)"

text \<open>The handler of the tag \<open>narrat\<close>: \<open>narratJump(parameters[0])\<close>.\<close>

definition narrat_tag :: "jsval list \<Rightarrow> world \<Rightarrow> world" where
  "narrat_tag parameters w = narratJump (arr_index parameters 0) w"

section \<open>The save hack\<close>

subsection \<open>save\<close>

text \<open>The object \<open>snapshot\<close> that \<open>save\<close> builds, as its list of properties.\<close>

definition room_entries :: "engine \<Rightarrow> jsval" where
  "room_entries b = Arr (map (\<lambda>r. Arr [Str (fst r), snd r]) (room b))"

definition variable_entries :: "engine \<Rightarrow> jsval" where
  "variable_entries b =
     Arr (map (\<lambda>variable. Arr [variable, GetVariable b variable]) (GetVariableNames b))"

definition save_position :: "hack_options \<Rightarrow> engine \<Rightarrow> (string \<times> jsval) list \<Rightarrow> (string \<times> jsval) list" where
  "save_position opts b snapshot =
     (if position opts
      then put (put (put snapshot ''room'' (curRoom b)) ''x'' (player_x b)) ''y'' (player_y b)
      else snapshot)"

definition save_items :: "hack_options \<Rightarrow> engine \<Rightarrow> (string \<times> jsval) list \<Rightarrow> (string \<times> jsval) list" where
  "save_items opts b snapshot =
     (if items opts
      then put (put snapshot ''inventory'' (player_inventory b)) ''items'' (room_entries b)
      else snapshot)"

definition save_variables :: "hack_options \<Rightarrow> engine \<Rightarrow> (string \<times> jsval) list \<Rightarrow> (string \<times> jsval) list" where
  "save_variables opts b snapshot =
     (if variables opts then put snapshot ''variables'' (variable_entries b) else snapshot)"

definition save_dialog :: "hack_options \<Rightarrow> engine \<Rightarrow> (string \<times> jsval) list \<Rightarrow> (string \<times> jsval) list" where
  "save_dialog opts b snapshot =
     (if dialog opts
      then put (put snapshot ''sequenceIndices'' (sequenceIndices b)) ''shuffles'' (shuffles b)
      else snapshot)"

definition build_snapshot :: "hack_options \<Rightarrow> engine \<Rightarrow> (string \<times> jsval) list" where
  "build_snapshot opts b =
     save_dialog opts b (save_variables opts b (save_items opts b (save_position opts b [])))"

text \<open>
  \<open>save\<close> itself: \<open>localStorage.setItem(hackOptions.key, JSON.stringify(snapshot))\<close>. The
  store is taken to have room for the text.
\<close>

definition save :: "world \<Rightarrow> world" where
  "save w =
     w\<lparr>localStorage :=
         (localStorage w)
           (key (hackOptions w) \<mapsto>
              JSON_stringify (Obj (build_snapshot (hackOptions w) (bitsy w))))\<rparr>"

subsection \<open>clear\<close>

definition clear :: "world \<Rightarrow> world" where
  "clear w = w\<lparr>localStorage := (localStorage w)(key (hackOptions w) := None)\<rparr>"

subsection \<open>load\<close>

text \<open>
  \<open>load\<close> can throw half way, and what it has assigned by then stays assigned: the result
  is the error, if any, with the state reached.
\<close>

type_synonym 's outcome = "error option \<times> 's"

definition and_then :: "'s outcome \<Rightarrow> ('s \<Rightarrow> 's outcome) \<Rightarrow> 's outcome" where
  "and_then r f = (case r of (None, s) \<Rightarrow> f s | (Some e, s) \<Rightarrow> (Some e, s))"

text \<open>\<open>xs.forEach(f)\<close>: a throw of \<open>f\<close> ends the loop.\<close>

fun forEach_list :: "(jsval \<Rightarrow> 's \<Rightarrow> error + 's) \<Rightarrow> jsval list \<Rightarrow> 's \<Rightarrow> 's outcome" where
  "forEach_list f [] s = (None, s)"
| "forEach_list f (x # xs) s =
     (case f x s of Inl e \<Rightarrow> (Some e, s) | Inr s' \<Rightarrow> forEach_list f xs s')"

text \<open>
  \<open>v.forEach(f)\<close> on a truthy value of a snapshot: only an array has the method, on
  anything else the call throws.
\<close>

definition forEach :: "jsval \<Rightarrow> (jsval \<Rightarrow> 's \<Rightarrow> error + 's) \<Rightarrow> 's \<Rightarrow> 's outcome" where
  "forEach v f s = (case v of Arr xs \<Rightarrow> forEach_list f xs s | _ \<Rightarrow> (Some TypeError, s))"

definition load_position :: "jsval \<Rightarrow> engine \<Rightarrow> engine outcome" where
  "load_position snapshot b =
     (case get_prop snapshot ''room'' of
        Inl e \<Rightarrow> (Some e, b)
      | Inr r \<Rightarrow>
          let b1 = (if truthy r then b\<lparr>curRoom := r, player_room := r\<rparr> else b) in
          (case get_prop snapshot ''x'' of
             Inl e \<Rightarrow> (Some e, b1)
           | Inr sx \<Rightarrow>
               if truthy sx then
                 (case get_prop snapshot ''y'' of
                    Inl e \<Rightarrow> (Some e, b1)
                  | Inr sy \<Rightarrow>
                      if truthy sy then (None, b1\<lparr>player_x := sx, player_y := sy\<rparr>)
                      else (None, b1))
               else (None, b1)))"

text \<open>
  The body of the loop over \<open>snapshot.items\<close>:
  \<open>bitsy.room[entry[0]].items = entry[1]\<close>. A room of that name gets the items; a name
  that the table only inherits denotes a built-in object, and the assignment changes
  nothing of the engine; for any other name \<open>bitsy.room[entry[0]]\<close> is \<open>undefined\<close> and
  the assignment throws.
\<close>

definition set_room_items :: "jsval \<Rightarrow> engine \<Rightarrow> error + engine" where
  "set_room_items entry b =
     (case get_index entry 0 of
        Inl e \<Rightarrow> Inl e
      | Inr k \<Rightarrow>
          (case get_index entry 1 of
             Inl e \<Rightarrow> Inl e
           | Inr v \<Rightarrow>
               if ToString k \<in> set (map fst (room b))
               then Inr (b\<lparr>room := put (room b) (ToString k) v\<rparr>)
               else if ToString k \<in> set inherited then Inr b
               else Inl TypeError))"

definition load_items :: "jsval \<Rightarrow> engine \<Rightarrow> engine outcome" where
  "load_items snapshot b =
     (case get_prop snapshot ''inventory'' of
        Inl e \<Rightarrow> (Some e, b)
      | Inr i \<Rightarrow>
          let b1 = (if truthy i then b\<lparr>player_inventory := i\<rparr> else b) in
          (case get_prop snapshot ''items'' of
             Inl e \<Rightarrow> (Some e, b1)
           | Inr its \<Rightarrow>
               if truthy its then forEach its set_room_items b1 else (None, b1)))"

text \<open>
  The body of the loop over \<open>snapshot.variables\<close>:
  \<open>SetVariable(variable[0], variable[1])\<close>.
\<close>

definition set_variable_entry :: "jsval \<Rightarrow> engine \<Rightarrow> error + engine" where
  "set_variable_entry variable b =
     (case get_index variable 0 of
        Inl e \<Rightarrow> Inl e
      | Inr name \<Rightarrow>
          (case get_index variable 1 of
             Inl e \<Rightarrow> Inl e
           | Inr v \<Rightarrow> Inr (SetVariable name v b)))"

definition load_variables :: "jsval \<Rightarrow> engine \<Rightarrow> engine outcome" where
  "load_variables snapshot b =
     (case get_prop snapshot ''variables'' of
        Inl e \<Rightarrow> (Some e, b)
      | Inr vs \<Rightarrow> if truthy vs then forEach vs set_variable_entry b else (None, b))"

definition load_dialog :: "jsval \<Rightarrow> engine \<Rightarrow> engine outcome" where
  "load_dialog snapshot b =
     (case get_prop snapshot ''sequenceIndices'' of
        Inl e \<Rightarrow> (Some e, b)
      | Inr si \<Rightarrow>
          if truthy si then
            (case get_prop snapshot ''shuffles'' of
               Inl e \<Rightarrow> (Some e, b)
             | Inr sh \<Rightarrow> (None, b\<lparr>sequenceIndices := si, shuffles := sh\<rparr>))
          else (None, b))"

text \<open>The four guarded blocks of \<open>load\<close>, after the snapshot has been parsed.\<close>

definition restore :: "hack_options \<Rightarrow> jsval \<Rightarrow> engine \<Rightarrow> engine outcome" where
  "restore opts snapshot b =
     and_then
       (and_then
          (and_then
             (if position opts then load_position snapshot b else (None, b))
             (\<lambda>b. if items opts then load_items snapshot b else (None, b)))
          (\<lambda>b. if variables opts then load_variables snapshot b else (None, b)))
       (\<lambda>b. if dialog opts then load_dialog snapshot b else (None, b))"

text \<open>
  \<open>localStorage.getItem\<close> returns \<open>null\<close> for a key that is not stored; \<open>!snapshot\<close> is
  true of \<open>null\<close> and of the empty string.
\<close>

definition load :: "world \<Rightarrow> world outcome" where
  "load w =
     (case localStorage w (key (hackOptions w)) of
        None \<Rightarrow> (None, w)
      | Some s \<Rightarrow>
          if s = OtherText [] then (None, w)
          else
            (case JSON_parse s of
               Inl e \<Rightarrow> (Some e, w)
             | Inr snapshot \<Rightarrow>
                 (case restore (hackOptions w) snapshot (bitsy w) of
                    (e, b) \<Rightarrow> (e, w\<lparr>bitsy := b\<rparr>))))"


subsection \<open>Hooks and dialog tags\<close>

text \<open>
  \<open>setInterval(save, delay)\<close> starts a timer under a handle that was never used before
  and returns the handle; \<open>clearInterval\<close> stops the timer of a handle and ignores
  \<open>undefined\<close>. Only the timers that run \<open>save\<close> are part of the state.
\<close>

definition clearInterval :: "nat option \<Rightarrow> world \<Rightarrow> world" where
  "clearInterval h w =
     (case h of None \<Rightarrow> w | Some i \<Rightarrow> w\<lparr>intervals := filter (\<lambda>t. fst t \<noteq> i) (intervals w)\<rparr>)"

definition setInterval :: "jsnum \<Rightarrow> world \<Rightarrow> nat \<times> world" where
  "setInterval delay w =
     (Suc (timer_ids w),
      w\<lparr>intervals := intervals w @ [(Suc (timer_ids w), delay)], timer_ids := Suc (timer_ids w)\<rparr>)"

text \<open>The first function registered after \<open>onready\<close>: the autosave.\<close>

definition onready_autosave :: "world \<Rightarrow> world" where
  "onready_autosave w =
     (if lt_num (autosaveInterval (hackOptions w)) PosInf then
        (case setInterval (autosaveInterval (hackOptions w)) (clearInterval (autosaveTimer w) w) of
           (h, w') \<Rightarrow> w'\<lparr>autosaveTimer := Some h\<rparr>)
      else w)"

text \<open>The second function registered after \<open>onready\<close>: the autoload.\<close>

definition onready_autoload :: "world \<Rightarrow> world outcome" where
  "onready_autoload w = (if loadOnStart (hackOptions w) then load w else (None, w))"

definition after_onready :: "world \<Rightarrow> world outcome" where
  "after_onready w = onready_autoload (onready_autosave w)"

text \<open>The function registered before \<open>reset_cur_game\<close>.\<close>

definition before_reset_cur_game :: "world \<Rightarrow> world" where
  "before_reset_cur_game w =
     (if clearOnEnd (hackOptions w) then (if isEnding (bitsy w) then clear w else w) else w)"

text \<open>The function registered before \<open>startExportedGame\<close>.\<close>

definition before_startExportedGame :: "world \<Rightarrow> world" where
  "before_startExportedGame w = (if clearOnStart (hackOptions w) then clear w else w)"

text \<open>A timer fires: the timer of a handle that is running calls \<open>save\<close>.\<close>

definition tick :: "nat \<Rightarrow> world \<Rightarrow> world" where
  "tick h w = (if h \<in> set (map fst (intervals w)) then save w else w)"

text \<open>
  Modelled from the spec: the registration of hooks and tags (\<open>before\<close>, \<open>after\<close> and
  \<open>addDualDialogTag\<close> of the script toolkit), which is not part of the repository. The
  spec describes it as wrapping a function of the engine with functions that run before
  or after it, and as registering a tag with the dialog interpreter. So the host runs
  code of the two hacks in these ways: when the engine has run \<open>onready\<close> (the two
  functions registered after it, in the order of their registration), before it runs
  \<open>reset_cur_game\<close> or \<open>startExportedGame\<close>, when a dialog uses the tag \<open>save\<close>, \<open>clear\<close> or
  \<open>narrat\<close> (each also under its name with \<open>Now\<close> appended, same function), and when a
  timer fires. \<open>Engine f\<close> is anything the engine does to its own state in between. The
  tag \<open>load\<close> calls the engine's \<open>reset_cur_game\<close>, which is not part of the repository
  either; it reaches the store through the hooks \<open>ResetCurGame\<close> and \<open>OnReady\<close> only.
\<close>

datatype event =
    OnReady
  | ResetCurGame
  | StartExportedGame
  | SaveTag
  | ClearTag
  | NarratTag "jsval list"
  | Tick nat
  | Engine "engine \<Rightarrow> engine"

fun step :: "event \<Rightarrow> world \<Rightarrow> world" where
  "step OnReady w = snd (after_onready w)"
| "step ResetCurGame w = before_reset_cur_game w"
| "step StartExportedGame w = before_startExportedGame w"
| "step SaveTag w = save w"
| "step ClearTag w = clear w"
| "step (NarratTag parameters) w = narrat_tag parameters w"
| "step (Tick h) w = tick h w"
| "step (Engine f) w = w\<lparr>bitsy := f (bitsy w)\<rparr>"

fun run :: "event list \<Rightarrow> world \<Rightarrow> world" where
  "run [] w = w"
| "run (e # es) w = run es (step e w)"

text \<open>The three operations on the store, and a sequence of them.\<close>

datatype operation = Save | Load | Clear

fun perform :: "operation \<Rightarrow> world \<Rightarrow> world" where
  "perform Save w = save w"
| "perform Load w = snd (load w)"
| "perform Clear w = clear w"

fun perform_all :: "operation list \<Rightarrow> world \<Rightarrow> world" where
  "perform_all [] w = w"
| "perform_all (p # ps) w = perform_all ps (perform p w)"

text \<open>An event removes the snapshot: one is stored before it and none after it.\<close>

definition removes_snapshot :: "event \<Rightarrow> world \<Rightarrow> bool" where
  "removes_snapshot e w =
     (localStorage w (key (hackOptions w)) \<noteq> None \<and>
      localStorage (step e w) (key (hackOptions w)) = None)"


section \<open>Vocabulary of the properties\<close>

text \<open>
  The value that \<open>load\<close> finds under a name of the parsed snapshot, \<open>undefined\<close> when
  there is none (and when the snapshot is \<open>null\<close>, where the read throws).
\<close>

definition saved :: "jsval \<Rightarrow> string \<Rightarrow> jsval" where
  "saved snapshot name = (case get_prop snapshot name of Inl e \<Rightarrow> Undefined | Inr v \<Rightarrow> v)"

definition nullish :: "jsval \<Rightarrow> bool" where
  "nullish v = (v = Undefined \<or> v = Null)"

fun is_array :: "jsval \<Rightarrow> bool" where
  "is_array (Arr xs) = True"
| "is_array v = False"

fun is_string :: "jsval \<Rightarrow> bool" where
  "is_string (Str s) = True"
| "is_string v = False"

text \<open>
  An engine state that a snapshot can carry: every value that \<open>save\<close> stores is a JSON
  value (so \<open>JSON.stringify\<close> keeps it as it is), the names of the dialog variables are
  strings and no two rooms have the same id.
\<close>

definition json_keeps :: "engine \<Rightarrow> bool" where
  "json_keeps b =
     (is_json (curRoom b) \<and> is_json (player_x b) \<and> is_json (player_y b) \<and>
      is_json (player_inventory b) \<and>
      list_all (\<lambda>r. is_json (snd r)) (room b) \<and> distinct (map fst (room b)) \<and>
      list_all (\<lambda>v. is_string (fst v) \<and> is_json (snd v)) (variableMap b) \<and>
      is_json (sequenceIndices b) \<and> is_json (shuffles b))"

text \<open>The saved values that \<open>load\<close> tests before it assigns them are all truthy.\<close>

definition guards_pass :: "engine \<Rightarrow> bool" where
  "guards_pass b =
     (truthy (curRoom b) \<and> truthy (player_x b) \<and> truthy (player_y b) \<and>
      truthy (player_inventory b) \<and> truthy (sequenceIndices b))"

text \<open>The field names of the stored snapshot, and the stored value of a field.\<close>

definition stored_fields :: "world \<Rightarrow> string list" where
  "stored_fields w =
     (case localStorage w (key (hackOptions w)) of
        Some (JsonText (Obj ps)) \<Rightarrow> map fst ps
      | _ \<Rightarrow> [])"

definition stored_field :: "world \<Rightarrow> string \<Rightarrow> jsval" where
  "stored_field w name =
     (case localStorage w (key (hackOptions w)) of
        Some (JsonText v) \<Rightarrow> saved v name
      | _ \<Rightarrow> Undefined)"

text \<open>
  The four feature flags, the snapshot fields each of them governs and the part of the
  engine each of them governs.
\<close>

datatype flag = Position | Items | Variables | Dialog

fun enabled :: "flag \<Rightarrow> hack_options \<Rightarrow> bool" where
  "enabled Position opts = position opts"
| "enabled Items opts = items opts"
| "enabled Variables opts = variables opts"
| "enabled Dialog opts = dialog opts"

fun disable :: "flag \<Rightarrow> hack_options \<Rightarrow> hack_options" where
  "disable Position opts = opts\<lparr>position := False\<rparr>"
| "disable Items opts = opts\<lparr>items := False\<rparr>"
| "disable Variables opts = opts\<lparr>variables := False\<rparr>"
| "disable Dialog opts = opts\<lparr>dialog := False\<rparr>"

fun fields_of :: "flag \<Rightarrow> string list" where
  "fields_of Position = [''room'', ''x'', ''y'']"
| "fields_of Items = [''inventory'', ''items'']"
| "fields_of Variables = [''variables'']"
| "fields_of Dialog = [''sequenceIndices'', ''shuffles'']"

fun same_on :: "flag \<Rightarrow> engine \<Rightarrow> engine \<Rightarrow> bool" where
  "same_on Position a b =
     (curRoom a = curRoom b \<and> player_x a = player_x b \<and> player_y a = player_y b \<and>
      player_room a = player_room b)"
| "same_on Items a b = (player_inventory a = player_inventory b \<and> room a = room b)"
| "same_on Variables a b = (variableMap a = variableMap b)"
| "same_on Dialog a b = (sequenceIndices a = sequenceIndices b \<and> shuffles a = shuffles b)"

text \<open>The block of \<open>load\<close> that a flag guards, and the blocks of a list of flags in turn.\<close>

fun load_block :: "flag \<Rightarrow> jsval \<Rightarrow> engine \<Rightarrow> engine outcome" where
  "load_block Position = load_position"
| "load_block Items = load_items"
| "load_block Variables = load_variables"
| "load_block Dialog = load_dialog"

fun load_blocks :: "flag list \<Rightarrow> hack_options \<Rightarrow> jsval \<Rightarrow> engine \<Rightarrow> engine outcome" where
  "load_blocks [] opts snapshot b = (None, b)"
| "load_blocks (f # fs) opts snapshot b =
     and_then (if enabled f opts then load_block f snapshot b else (None, b))
       (load_blocks fs opts snapshot)"

section \<open>A small game\<close>

text \<open>
  A game with two rooms, one item lying in the first room and two in the inventory,
  one dialog variable and one sequence that has advanced once; the player stands at
  \<open>(4, 7)\<close> in room \<open>0\<close>. Nothing is stored yet, and the options are the defaults.
\<close>

definition example_engine :: engine where
  "example_engine =
     \<lparr> curRoom = Str ''0'',
       player_x = Num (Fin 4),
       player_y = Num (Fin 7),
       player_room = Str ''0'',
       player_inventory = Obj [(''tea'', Num (Fin 2))],
       room =
         [(''0'', Arr [Obj [(''id'', Str ''tea''), (''x'', Num (Fin 3)), (''y'', Num (Fin 5))]]),
          (''1'', Arr [])],
       variableMap = [(Str ''a'', Num (Fin 42))],
       sequenceIndices = Obj [(''2'', Num (Fin 1))],
       shuffles = Obj [],
       isEnding = False \<rparr>"

definition example_world :: world where
  "example_world =
     \<lparr> hackOptions = default_options,
       bitsy = example_engine,
       localStorage = (\<lambda>k. None),
       autosaveTimer = None,
       intervals = [],
       timer_ids = 0,
       console = [],
       narrat_jumps = [] \<rparr>"

text \<open>
  Later in that game: the player has picked up the tea, walked into room \<open>1\<close> and
  stands at its left edge, \<open>(0, 9)\<close>; the variable has been counted up.
\<close>

definition edge_engine :: engine where
  "edge_engine =
     example_engine
       \<lparr> curRoom := Str ''1'',
         player_x := Num (Fin 0),
         player_y := Num (Fin 9),
         player_room := Str ''1'',
         player_inventory := Obj [(''tea'', Num (Fin 3))],
         room := [(''0'', Arr []), (''1'', Arr [])],
         variableMap := [(Str ''a'', Num (Fin 43))] \<rparr>"

text \<open>
  The game is saved there and started again: the engine is back at its start, the
  store holds the snapshot.
\<close>

definition restarted_world :: world where
  "restarted_world = (save (example_world\<lparr>bitsy := edge_engine\<rparr>))\<lparr>bitsy := example_engine\<rparr>"

text \<open>The JSON text that is stored then.\<close>

definition edge_snapshot :: jsval where
  "edge_snapshot =
     Obj [(''room'', Str ''1''), (''x'', Num (Fin 0)), (''y'', Num (Fin 9)),
          (''inventory'', Obj [(''tea'', Num (Fin 3))]),
          (''items'', Arr [Arr [Str ''0'', Arr []], Arr [Str ''1'', Arr []]]),
          (''variables'', Arr [Arr [Str ''a'', Num (Fin 43)]]),
          (''sequenceIndices'', Obj [(''2'', Num (Fin 1))]),
          (''shuffles'', Obj [])]"

text \<open>The same world with the flag \<open>position\<close> switched off.\<close>

definition position_off_world :: world where
  "position_off_world =
     restarted_world\<lparr>hackOptions := disable Position (hackOptions restarted_world)\<rparr>"

text \<open>
  A snapshot from an earlier version of the game, which had a third room \<open>9\<close> and the
  variable at \<open>1\<close>, found by the game as it is now.
\<close>

definition stale_world :: world where
  "stale_world =
     (save (example_world
        \<lparr>bitsy := example_engine
           \<lparr>room := room example_engine @ [(''9'', Arr [])],
            variableMap := [(Str ''a'', Num (Fin 1))]\<rparr>\<rparr>))
       \<lparr>bitsy := example_engine\<rparr>"

text \<open>Stored JSON that no \<open>save\<close> wrote: \<open>{"items": 5, "sequenceIndices": {"2": 3}}\<close>.\<close>

definition foreign_snapshot :: jsval where
  "foreign_snapshot =
     Obj [(''items'', Num (Fin 5)), (''sequenceIndices'', Obj [(''2'', Num (Fin 3))])]"

definition foreign_world :: world where
  "foreign_world =
     example_world
       \<lparr>localStorage := (\<lambda>k. None)(''snapshot'' \<mapsto> JsonText foreign_snapshot)\<rparr>"

text \<open>Stored JSON with a string where the variables are expected: \<open>{"variables": "abc"}\<close>.\<close>

definition foreign_variables :: jsval where
  "foreign_variables = Obj [(''variables'', Str ''abc'')]"

definition foreign_variables_world :: world where
  "foreign_variables_world =
     example_world
       \<lparr>localStorage := (\<lambda>k. None)(''snapshot'' \<mapsto> JsonText foreign_variables)\<rparr>"

text \<open>
  Stored JSON with a value of an unexpected type under every name:
  \<open>{"room": 5, "x": "a", "y": true, "inventory": "bag", "sequenceIndices": 7}\<close>.
\<close>

definition mistyped_snapshot :: jsval where
  "mistyped_snapshot =
     Obj [(''room'', Num (Fin 5)), (''x'', Str ''a''), (''y'', Bool True),
          (''inventory'', Str ''bag''), (''sequenceIndices'', Num (Fin 7))]"

definition mistyped_world :: world where
  "mistyped_world =
     example_world
       \<lparr>localStorage := (\<lambda>k. None)(''snapshot'' \<mapsto> JsonText mistyped_snapshot)\<rparr>"

text \<open>The saved example game with \<open>clearOnStart\<close> switched on.\<close>

definition clear_on_start_world :: world where
  "clear_on_start_world =
     (save example_world)\<lparr>hackOptions := default_options\<lparr>clearOnStart := True\<rparr>\<rparr>"

text \<open>The example game with an autosave every thirty seconds.\<close>

definition autosave_world :: world where
  "autosave_world =
     example_world\<lparr>hackOptions := default_options\<lparr>autosaveInterval := Fin 30000\<rparr>\<rparr>"

text \<open>The saved example game at an ending, with \<open>clearOnEnd\<close> switched on.\<close>

definition ending_world :: world where
  "ending_world =
     (save example_world)
       \<lparr>hackOptions := default_options\<lparr>clearOnEnd := True\<rparr>,
        bitsy := example_engine\<lparr>isEnding := True\<rparr>\<rparr>"

text \<open>The example game with its variable at \<open>Infinity\<close>, as a division by zero leaves it.\<close>

definition infinite_world :: world where
  "infinite_world =
     example_world\<lparr>bitsy := example_engine\<lparr>variableMap := [(Str ''a'', Num PosInf)]\<rparr>\<rparr>"

section \<open>Auxiliary facts\<close>

subsection \<open>The blocks of load\<close>

lemma get_prop_nullish: "nullish v \<Longrightarrow> get_prop v n = Inl TypeError"
  by (auto simp: nullish_def)

lemma get_prop_saved: "\<not> nullish v \<Longrightarrow> get_prop v n = Inr (saved v n)"
  by (cases v) (simp_all add: saved_def nullish_def)

lemma saved_nullish: "nullish v \<Longrightarrow> saved v n = Undefined"
  by (simp add: saved_def get_prop_nullish)

lemma load_world: "snd (load w) = w\<lparr>bitsy := bitsy (snd (load w))\<rparr>"
  by (simp add: load_def split: option.splits sum.splits prod.splits)

lemma load_stored:
  "localStorage w (key (hackOptions w)) = Some (JsonText snapshot) \<Longrightarrow>
   load w = (fst (restore (hackOptions w) snapshot (bitsy w)),
             w\<lparr>bitsy := snd (restore (hackOptions w) snapshot (bitsy w))\<rparr>)"
  by (simp add: load_def split: prod.splits)

lemma forEach_list_frame:
  assumes "\<And>x s s'. f x s = Inr s' \<Longrightarrow> g s' = g s"
  shows "g (snd (forEach_list f xs s)) = g s"
  using assms
  by (induction xs arbitrary: s) (auto split: sum.splits)

lemma forEach_frame:
  assumes "\<And>x s s'. f x s = Inr s' \<Longrightarrow> g s' = g s"
  shows "g (snd (forEach v f s)) = g s"
  using forEach_list_frame [of f g, OF assms]
  by (simp add: forEach_def split: jsval.splits)

lemma load_position_result:
  "snd (load_position snapshot b) =
     (let b1 = (if truthy (saved snapshot ''room'')
                then b\<lparr>curRoom := saved snapshot ''room'', player_room := saved snapshot ''room''\<rparr>
                else b)
      in if truthy (saved snapshot ''x'') \<and> truthy (saved snapshot ''y'')
         then b1\<lparr>player_x := saved snapshot ''x'', player_y := saved snapshot ''y''\<rparr>
         else b1)"
proof (cases "nullish snapshot")
  case True
  then show ?thesis
    by (simp add: load_position_def get_prop_nullish saved_nullish)
next
  case False
  then show ?thesis
    by (simp add: load_position_def get_prop_saved Let_def)
qed

lemma load_position_error:
  "fst (load_position snapshot b) = (if nullish snapshot then Some TypeError else None)"
  by (cases "nullish snapshot")
     (simp_all add: load_position_def get_prop_nullish get_prop_saved Let_def)

lemma load_dialog_result:
  "snd (load_dialog snapshot b) =
     (if truthy (saved snapshot ''sequenceIndices'')
      then b\<lparr>sequenceIndices := saved snapshot ''sequenceIndices'',
             shuffles := saved snapshot ''shuffles''\<rparr>
      else b)"
  by (cases "nullish snapshot")
     (simp_all add: load_dialog_def get_prop_nullish get_prop_saved saved_nullish)

lemma load_dialog_error:
  "fst (load_dialog snapshot b) = (if nullish snapshot then Some TypeError else None)"
  by (cases "nullish snapshot")
     (simp_all add: load_dialog_def get_prop_nullish get_prop_saved)

lemma load_items_unfold:
  "load_items snapshot b =
     (if nullish snapshot then (Some TypeError, b)
      else if truthy (saved snapshot ''items'')
      then forEach (saved snapshot ''items'') set_room_items
             (if truthy (saved snapshot ''inventory'')
              then b\<lparr>player_inventory := saved snapshot ''inventory''\<rparr> else b)
      else (None,
             if truthy (saved snapshot ''inventory'')
             then b\<lparr>player_inventory := saved snapshot ''inventory''\<rparr> else b))"
  by (cases "nullish snapshot")
     (simp_all add: load_items_def get_prop_nullish get_prop_saved Let_def)

lemma load_variables_unfold:
  "load_variables snapshot b =
     (if nullish snapshot then (Some TypeError, b)
      else if truthy (saved snapshot ''variables'')
      then forEach (saved snapshot ''variables'') set_variable_entry b
      else (None, b))"
  by (cases "nullish snapshot")
     (simp_all add: load_variables_def get_prop_nullish get_prop_saved)

lemma same_on_refl: "same_on g b b"
  by (cases g) simp_all

lemma same_on_sym: "same_on g a b \<Longrightarrow> same_on g b a"
  by (cases g) simp_all

lemma same_on_trans: "same_on g a b \<Longrightarrow> same_on g b c \<Longrightarrow> same_on g a c"
  by (cases g) simp_all

lemma set_room_items_same:
  "set_room_items entry b = Inr b' \<Longrightarrow> g \<noteq> Items \<Longrightarrow> same_on g b' b"
  by (cases g) (auto simp: set_room_items_def split: sum.splits if_splits)

lemma set_variable_entry_same:
  "set_variable_entry entry b = Inr b' \<Longrightarrow> g \<noteq> Variables \<Longrightarrow> same_on g b' b"
  by (cases g) (auto simp: set_variable_entry_def SetVariable_def split: sum.splits)

lemma forEach_list_same:
  assumes "\<And>x s s'. f x s = Inr s' \<Longrightarrow> same_on g s' s"
  shows "same_on g (snd (forEach_list f xs s)) s"
proof (induction xs arbitrary: s)
  case Nil
  show ?case by (simp add: same_on_refl)
next
  case (Cons x xs)
  show ?case
  proof (cases "f x s")
    case (Inl e)
    then show ?thesis by (simp add: same_on_refl)
  next
    case (Inr s')
    with Cons [of s'] assms [OF Inr] show ?thesis
      by (auto intro: same_on_trans)
  qed
qed

lemma forEach_same:
  assumes "\<And>x s s'. f x s = Inr s' \<Longrightarrow> same_on g s' s"
  shows "same_on g (snd (forEach v f s)) s"
  using forEach_list_same [of f g, OF assms]
  by (cases v) (simp_all add: forEach_def same_on_refl)

lemma load_block_frame: "g \<noteq> f \<Longrightarrow> same_on g (snd (load_block f snapshot b)) b"
proof (cases f)
  case Position
  then show "g \<noteq> f \<Longrightarrow> ?thesis"
    by (cases g) (simp_all add: load_position_result Let_def)
next
  case Items
  assume "g \<noteq> f"
  with Items have g: "g \<noteq> Items" by simp
  define c where
    "c = (if truthy (saved snapshot ''inventory'')
          then b\<lparr>player_inventory := saved snapshot ''inventory''\<rparr> else b)"
  have c: "same_on g c b"
    using g by (cases g) (simp_all add: c_def)
  have "same_on g (snd (forEach (saved snapshot ''items'') set_room_items c)) c"
    by (rule forEach_same) (rule set_room_items_same [OF _ g])
  with c have "same_on g (snd (forEach (saved snapshot ''items'') set_room_items c)) b"
    by (rule same_on_trans [rotated])
  with c show ?thesis
    using Items by (simp add: load_items_unfold same_on_refl c_def [symmetric])
next
  case Variables
  assume "g \<noteq> f"
  with Variables have g: "g \<noteq> Variables" by simp
  have "same_on g (snd (forEach v set_variable_entry c)) c" for v c
    by (rule forEach_same) (rule set_variable_entry_same [OF _ g])
  then show ?thesis
    using Variables by (auto simp: load_variables_unfold same_on_refl)
next
  case Dialog
  then show "g \<noteq> f \<Longrightarrow> ?thesis"
    by (cases g) (simp_all add: load_dialog_result)
qed

lemma and_then_None [simp]: "and_then (None, s) f = f s"
  by (simp add: and_then_def)

lemma and_then_Some [simp]: "and_then (Some e, s) f = (Some e, s)"
  by (simp add: and_then_def)

lemma and_then_assoc: "and_then (and_then r f) g = and_then r (\<lambda>s. and_then (f s) g)"
  by (cases r) (auto simp: and_then_def split: option.splits)

lemma and_then_unit: "and_then r (\<lambda>s. (None, s)) = r"
  by (cases r) (auto simp: and_then_def split: option.splits)

lemma load_blocks_Nil: "load_blocks [] opts snapshot = (\<lambda>b. (None, b))"
  by (rule ext) simp

lemma load_blocks_Cons:
  "load_blocks (f # fs) opts snapshot =
     (\<lambda>b. and_then (if enabled f opts then load_block f snapshot b else (None, b))
            (load_blocks fs opts snapshot))"
  by (rule ext) simp

lemma restore_blocks:
  "restore opts snapshot b = load_blocks [Position, Items, Variables, Dialog] opts snapshot b"
  by (simp only: restore_def load_blocks_Cons load_blocks_Nil and_then_assoc and_then_unit
        enabled.simps load_block.simps)

lemma load_blocks_frame:
  "g \<notin> set fs \<or> \<not> enabled g opts \<Longrightarrow> same_on g (snd (load_blocks fs opts snapshot b)) b"
proof (induction fs arbitrary: b)
  case Nil
  show ?case by (simp add: same_on_refl)
next
  case (Cons f fs)
  obtain e b1 where r: "(if enabled f opts then load_block f snapshot b else (None, b)) = (e, b1)"
    by (cases "if enabled f opts then load_block f snapshot b else (None, b)") 
  have b1: "same_on g b1 b"
  proof (cases "enabled f opts")
    case True
    with Cons.prems have "g \<noteq> f" by auto
    from load_block_frame [OF this, of snapshot b] r True show ?thesis by simp
  next
    case False
    with r show ?thesis by (simp add: same_on_refl)
  qed
  from Cons.prems have "g \<notin> set fs \<or> \<not> enabled g opts" by auto
  from Cons.IH [OF this, of b1] b1 r show ?case
    by (cases e) (auto intro: same_on_trans)
qed


lemma forEach_list_cong:
  assumes step: "\<And>x s t. R s t \<Longrightarrow>
            (\<exists>e. f x s = Inl e \<and> f x t = Inl e) \<or>
            (\<exists>s' t'. f x s = Inr s' \<and> f x t = Inr t' \<and> R s' t')"
    and "R s t"
  shows "fst (forEach_list f xs s) = fst (forEach_list f xs t) \<and>
         R (snd (forEach_list f xs s)) (snd (forEach_list f xs t))"
  using \<open>R s t\<close>
proof (induction xs arbitrary: s t)
  case Nil
  then show ?case by simp
next
  case (Cons x xs)
  from step [OF Cons.prems, of x] show ?case
  proof
    assume "\<exists>e. f x s = Inl e \<and> f x t = Inl e"
    with Cons.prems show ?thesis by auto
  next
    assume "\<exists>s' t'. f x s = Inr s' \<and> f x t = Inr t' \<and> R s' t'"
    then obtain s' t' where "f x s = Inr s'" "f x t = Inr t'" "R s' t'" by blast
    with Cons.IH [of s' t'] show ?thesis by simp
  qed
qed

lemma set_room_items_cong:
  assumes "same_on Items a b"
  shows "(\<exists>e. set_room_items x a = Inl e \<and> set_room_items x b = Inl e) \<or>
         (\<exists>a' b'. set_room_items x a = Inr a' \<and> set_room_items x b = Inr b' \<and>
                   same_on Items a' b')"
  using assms
  by (auto simp: set_room_items_def split: sum.splits)

lemma set_variable_entry_cong:
  assumes "same_on Variables a b"
  shows "(\<exists>e. set_variable_entry x a = Inl e \<and> set_variable_entry x b = Inl e) \<or>
         (\<exists>a' b'. set_variable_entry x a = Inr a' \<and> set_variable_entry x b = Inr b' \<and>
                   same_on Variables a' b')"
  using assms
  by (auto simp: set_variable_entry_def SetVariable_def split: sum.splits)

lemma forEach_cong:
  assumes step: "\<And>x s t. R s t \<Longrightarrow>
            (\<exists>e. f x s = Inl e \<and> f x t = Inl e) \<or>
            (\<exists>s' t'. f x s = Inr s' \<and> f x t = Inr t' \<and> R s' t')"
    and "R s t"
  shows "fst (forEach v f s) = fst (forEach v f t) \<and>
         R (snd (forEach v f s)) (snd (forEach v f t))"
  using forEach_list_cong [of R f s t, OF step \<open>R s t\<close>] \<open>R s t\<close>
  by (cases v) (simp_all add: forEach_def)

lemma load_block_cong:
  assumes "same_on h a b"
  shows "fst (load_block h snapshot a) = fst (load_block h snapshot b) \<and>
         same_on h (snd (load_block h snapshot a)) (snd (load_block h snapshot b))"
proof (cases h)
  case Position
  with assms show ?thesis
    by (simp add: load_position_error load_position_result Let_def)
next
  case Items
  define a1 where
    "a1 = (if truthy (saved snapshot ''inventory'')
           then a\<lparr>player_inventory := saved snapshot ''inventory''\<rparr> else a)"
  define b1 where
    "b1 = (if truthy (saved snapshot ''inventory'')
           then b\<lparr>player_inventory := saved snapshot ''inventory''\<rparr> else b)"
  from assms Items have 1: "same_on Items a1 b1"
    by (simp add: a1_def b1_def)
  have "fst (forEach v set_room_items a1) = fst (forEach v set_room_items b1) \<and>
        same_on Items (snd (forEach v set_room_items a1)) (snd (forEach v set_room_items b1))"
    for v
    by (rule forEach_cong [OF set_room_items_cong 1])
  with 1 assms show ?thesis
    unfolding Items
    by (simp add: load_items_unfold a1_def [symmetric] b1_def [symmetric])
next
  case Variables
  with assms have 1: "same_on Variables a b" by simp
  have "fst (forEach v set_variable_entry a) = fst (forEach v set_variable_entry b) \<and>
        same_on Variables (snd (forEach v set_variable_entry a))
          (snd (forEach v set_variable_entry b))"
    for v
    by (rule forEach_cong [OF set_variable_entry_cong 1])
  with 1 show ?thesis
    unfolding Variables
    by (simp add: load_variables_unfold)
next
  case Dialog
  with assms show ?thesis
    by (simp add: load_dialog_error load_dialog_result)
qed

lemma enabled_disable: "enabled h (disable f opts) = (h \<noteq> f \<and> enabled h opts)"
  by (cases h; cases f) simp_all

lemma load_blocks_independent:
  assumes "fst (load_blocks fs opts snapshot b) = None"
    and "\<forall>g. g \<noteq> f \<longrightarrow> same_on g c b"
  shows "fst (load_blocks fs (disable f opts) snapshot c) = None \<and>
         (\<forall>g. g \<noteq> f \<longrightarrow>
            same_on g (snd (load_blocks fs (disable f opts) snapshot c))
              (snd (load_blocks fs opts snapshot b)))"
  using assms
proof (induction fs arbitrary: b c)
  case Nil
  then show ?case by simp
next
  case (Cons h fs)
  show ?case
  proof (cases "enabled h opts")
    case False
    with Cons.prems Cons.IH [of b c] show ?thesis
      by (simp add: enabled_disable)
  next
    case True
    obtain e b1 where b1: "load_block h snapshot b = (e, b1)"
      by (cases "load_block h snapshot b")
    with True Cons.prems(1) have e: "e = None"
      by (cases e) simp_all
    with True b1 Cons.prems(1) have rest: "fst (load_blocks fs opts snapshot b1) = None"
      by simp
    show ?thesis
    proof (cases "h = f")
      case same: True
      have "\<forall>g. g \<noteq> f \<longrightarrow> same_on g c b1"
      proof (intro allI impI)
        fix g assume g: "g \<noteq> f"
        with same have "same_on g (snd (load_block h snapshot b)) b"
          by (simp add: load_block_frame)
        with b1 have "same_on g b b1" by (simp add: same_on_sym)
        with Cons.prems(2) g show "same_on g c b1"
          by (blast intro: same_on_trans)
      qed
      from Cons.IH [OF rest this] same True b1 e show ?thesis
        by (simp add: enabled_disable)
    next
      case other: False
      obtain e' c1 where c1: "load_block h snapshot c = (e', c1)"
        by (cases "load_block h snapshot c")
      from other Cons.prems(2) have "same_on h c b" by simp
      from load_block_cong [OF this, of snapshot] b1 c1 e
      have e': "e' = None" and h: "same_on h c1 b1" by simp_all
      have "\<forall>g. g \<noteq> f \<longrightarrow> same_on g c1 b1"
      proof (intro allI impI)
        fix g assume g: "g \<noteq> f"
        show "same_on g c1 b1"
        proof (cases "g = h")
          case True
          with h show ?thesis by simp
        next
          case False
          from load_block_frame [OF False, of snapshot c] c1
          have 1: "same_on g c1 c" by simp
          from load_block_frame [OF False, of snapshot b] b1
          have 2: "same_on g b b1" by (simp add: same_on_sym)
          from Cons.prems(2) g have "same_on g c b" by simp
          with 1 2 show ?thesis by (blast intro: same_on_trans)
        qed
      qed
      from Cons.IH [OF rest this] other True b1 c1 e e' show ?thesis
        by (simp add: enabled_disable)
    qed
  qed
qed

subsection \<open>The snapshot that save builds\<close>

lemma map_of_put: "map_of (put ps k v) = (map_of ps)(k \<mapsto> v)"
  by (induction ps) (auto simp: fun_eq_iff)

lemma keys_put: "fst ` set (put ps k v) = insert k (fst ` set ps)"
proof (induction ps)
  case Nil
  show ?case by simp
next
  case (Cons p ps)
  obtain k' v' where p: "p = (k', v')" by (cases p)
  from Cons show ?case
    unfolding p by (cases "k' = k") (simp_all add: insert_commute)
qed

lemma distinct_put: "distinct (map fst ps) \<Longrightarrow> distinct (map fst (put ps k v))"
  by (induction ps) (auto simp: keys_put)

lemma build_snapshot_distinct: "distinct (map fst (build_snapshot opts b))"
  by (simp add: build_snapshot_def save_position_def save_items_def save_variables_def
        save_dialog_def distinct_put)

lemma save_position_keys:
  "fst ` set (save_position opts b ps) =
     (if position opts then set (fields_of Position) else {}) \<union> fst ` set ps"
  by (simp add: save_position_def keys_put insert_commute)

lemma save_items_keys:
  "fst ` set (save_items opts b ps) =
     (if items opts then set (fields_of Items) else {}) \<union> fst ` set ps"
  by (simp add: save_items_def keys_put insert_commute)

lemma save_variables_keys:
  "fst ` set (save_variables opts b ps) =
     (if variables opts then set (fields_of Variables) else {}) \<union> fst ` set ps"
  by (simp add: save_variables_def keys_put)

lemma save_dialog_keys:
  "fst ` set (save_dialog opts b ps) =
     (if dialog opts then set (fields_of Dialog) else {}) \<union> fst ` set ps"
  by (simp add: save_dialog_def keys_put insert_commute)

lemma build_snapshot_keys:
  "fst ` set (build_snapshot opts b) =
     (if position opts then set (fields_of Position) else {}) \<union>
     (if items opts then set (fields_of Items) else {}) \<union>
     (if variables opts then set (fields_of Variables) else {}) \<union>
     (if dialog opts then set (fields_of Dialog) else {})"
  unfolding build_snapshot_def save_position_keys save_items_keys save_variables_keys
    save_dialog_keys
  by (simp only: list.set image_empty Un_empty_right Un_empty_left Un_ac)

lemma build_snapshot_all:
  assumes "position opts" "items opts" "variables opts" "dialog opts"
  shows "build_snapshot opts b =
     [(''room'', curRoom b), (''x'', player_x b), (''y'', player_y b),
      (''inventory'', player_inventory b), (''items'', room_entries b),
      (''variables'', variable_entries b),
      (''sequenceIndices'', sequenceIndices b), (''shuffles'', shuffles b)]"
  using assms
  by (simp add: build_snapshot_def save_position_def save_items_def save_variables_def
        save_dialog_def)

lemma to_json_props_defined:
  "v \<noteq> Undefined \<Longrightarrow> to_json_props ((k, v) # ps) = (k, to_json v) # to_json_props ps"
  by (cases v) simp_all

lemma to_json_props_keys: "set (map fst (to_json_props ps)) \<subseteq> set (map fst ps)"
proof (induction ps)
  case Nil
  show ?case by simp
next
  case (Cons p ps)
  obtain k v where p: "p = (k, v)" by (cases p)
  from Cons show ?case
    unfolding p by (cases "v = Undefined") (auto simp: to_json_props_defined)
qed

lemma map_of_to_json_props:
  "distinct (map fst ps) \<Longrightarrow>
   (case map_of (to_json_props ps) k of None \<Rightarrow> Undefined | Some v \<Rightarrow> v) =
   to_json (case map_of ps k of None \<Rightarrow> Undefined | Some v \<Rightarrow> v)"
proof (induction ps)
  case Nil
  show ?case by simp
next
  case (Cons p ps)
  obtain k' v where p: "p = (k', v)" by (cases p)
  from Cons.prems have absent: "map_of ps k' = None"
    by (simp add: p map_of_eq_None_iff)
  then have "map_of (to_json_props ps) k' = None"
    using to_json_props_keys [of ps] by (auto simp: map_of_eq_None_iff)
  with Cons absent show ?case
    unfolding p by (cases "v = Undefined") (auto simp: to_json_props_defined)
qed

lemma stored_field_save:
  "stored_field (save w) k =
     to_json (case map_of (build_snapshot (hackOptions w) (bitsy w)) k of
                None \<Rightarrow> Undefined | Some v \<Rightarrow> v)"
  using map_of_to_json_props [OF build_snapshot_distinct, of "hackOptions w" "bitsy w" k]
  by (simp add: stored_field_def save_def JSON_stringify_def saved_def)

lemma stored_fields_save:
  "stored_fields (save w) = map fst (to_json_props (build_snapshot (hackOptions w) (bitsy w)))"
  by (simp add: stored_fields_def save_def JSON_stringify_def)

lemma save_position_lookup:
  "map_of (save_position opts b ps) k =
     (if position opts \<and> k = ''y'' then Some (player_y b)
      else if position opts \<and> k = ''x'' then Some (player_x b)
      else if position opts \<and> k = ''room'' then Some (curRoom b)
      else map_of ps k)"
  by (simp add: save_position_def map_of_put)

lemma save_items_lookup:
  "map_of (save_items opts b ps) k =
     (if items opts \<and> k = ''items'' then Some (room_entries b)
      else if items opts \<and> k = ''inventory'' then Some (player_inventory b)
      else map_of ps k)"
  by (simp add: save_items_def map_of_put)

lemma save_variables_lookup:
  "map_of (save_variables opts b ps) k =
     (if variables opts \<and> k = ''variables'' then Some (variable_entries b)
      else map_of ps k)"
  by (simp add: save_variables_def map_of_put)

lemma save_dialog_lookup:
  "map_of (save_dialog opts b ps) k =
     (if dialog opts \<and> k = ''shuffles'' then Some (shuffles b)
      else if dialog opts \<and> k = ''sequenceIndices'' then Some (sequenceIndices b)
      else map_of ps k)"
  by (simp add: save_dialog_def map_of_put)

lemma build_snapshot_lookup:
  "map_of (build_snapshot opts b) k =
     (if dialog opts \<and> k = ''shuffles'' then Some (shuffles b)
      else if dialog opts \<and> k = ''sequenceIndices'' then Some (sequenceIndices b)
      else if variables opts \<and> k = ''variables'' then Some (variable_entries b)
      else if items opts \<and> k = ''items'' then Some (room_entries b)
      else if items opts \<and> k = ''inventory'' then Some (player_inventory b)
      else if position opts \<and> k = ''y'' then Some (player_y b)
      else if position opts \<and> k = ''x'' then Some (player_x b)
      else if position opts \<and> k = ''room'' then Some (curRoom b)
      else None)"
  by (simp only: build_snapshot_def save_position_lookup save_items_lookup
        save_variables_lookup save_dialog_lookup map_of.simps)

subsection \<open>What load, save and clear leave alone\<close>

lemma load_keeps:
  "hackOptions (snd (load w)) = hackOptions w"
  "localStorage (snd (load w)) = localStorage w"
  "autosaveTimer (snd (load w)) = autosaveTimer w"
  "intervals (snd (load w)) = intervals w"
  "timer_ids (snd (load w)) = timer_ids w"
  "console (snd (load w)) = console w"
  "narrat_jumps (snd (load w)) = narrat_jumps w"
  by (subst load_world, simp)+

lemma perform_options: "hackOptions (perform p w) = hackOptions w"
  by (cases p) (simp_all add: save_def clear_def load_keeps)

lemma perform_other_keys:
  "k \<noteq> key (hackOptions w) \<Longrightarrow> localStorage (perform p w) k = localStorage w k"
  by (cases p) (simp_all add: save_def clear_def load_keeps)

lemma perform_all_options: "hackOptions (perform_all ps w) = hackOptions w"
  by (induction ps arbitrary: w) (simp_all add: perform_options)

lemma perform_all_other_keys:
  "k \<noteq> key (hackOptions w) \<Longrightarrow> localStorage (perform_all ps w) k = localStorage w k"
  by (induction ps arbitrary: w) (simp_all add: perform_options perform_other_keys)

subsection \<open>The blocks of load in sequence\<close>

lemma load_blocks_append:
  "load_blocks (fs @ gs) opts snapshot b =
     and_then (load_blocks fs opts snapshot b) (load_blocks gs opts snapshot)"
proof (induction fs arbitrary: b)
  case Nil
  show ?case by simp
next
  case (Cons f fs)
  have "load_blocks (fs @ gs) opts snapshot =
        (\<lambda>b. and_then (load_blocks fs opts snapshot b) (load_blocks gs opts snapshot))"
    by (rule ext) (rule Cons.IH)
  then show ?case
    by (simp add: and_then_assoc)
qed

lemma and_then_cases:
  "and_then r f = (if fst r = None then f (snd r) else r)"
  by (cases r) (auto simp: and_then_def split: option.splits)

lemma load_blocks_stops:
  "fst (load_blocks fs opts snapshot b) \<noteq> None \<Longrightarrow>
   load_blocks (fs @ gs) opts snapshot b = load_blocks fs opts snapshot b"
  by (auto simp: load_blocks_append and_then_cases)

lemma load_blocks_prefix_None:
  "fst (load_blocks (fs @ gs) opts snapshot b) = None \<Longrightarrow>
   fst (load_blocks fs opts snapshot b) = None"
  by (simp add: load_blocks_append and_then_cases split: if_splits)

lemma load_blocks_reaches:
  assumes "f \<notin> set fs" and "f \<notin> set gs"
    and "fst (load_blocks fs opts snapshot b) = None" and "enabled f opts"
  shows "same_on f (snd (load_blocks (fs @ f # gs) opts snapshot b))
           (snd (load_block f snapshot b))"
proof -
  define b1 where "b1 = snd (load_blocks fs opts snapshot b)"
  have 1: "same_on f b1 b"
    unfolding b1_def using assms(1) by (simp add: load_blocks_frame)
  have 2: "same_on f (snd (load_block f snapshot b1)) (snd (load_block f snapshot b))"
    using load_block_cong [OF 1] by simp
  have "same_on f (snd (load_blocks gs opts snapshot c)) c" for c
    using assms(2) by (simp add: load_blocks_frame)
  then have 3: "same_on f (snd (load_blocks (f # gs) opts snapshot b1))
                  (snd (load_block f snapshot b1))"
    using assms(4) by (simp add: and_then_cases same_on_refl)
  have "load_blocks (fs @ f # gs) opts snapshot b = load_blocks (f # gs) opts snapshot b1"
    using assms(3) by (simp add: load_blocks_append and_then_cases b1_def)
  with 2 3 show ?thesis
    by (auto intro: same_on_trans)
qed

lemma saved_truthy: "truthy (saved snapshot name) \<Longrightarrow> \<not> nullish snapshot"
  by (auto simp: saved_nullish)

lemma restore_position:
  "same_on Position (snd (restore opts snapshot b))
     (if position opts then snd (load_position snapshot b) else b)"
proof (cases "position opts")
  case True
  have "same_on Position
          (snd (load_blocks ([] @ Position # [Items, Variables, Dialog]) opts snapshot b))
          (snd (load_block Position snapshot b))"
    by (rule load_blocks_reaches) (simp_all add: True)
  then have "same_on Position (snd (restore opts snapshot b)) (snd (load_position snapshot b))"
    by (simp only: restore_blocks append_Nil load_block.simps)
  with True show ?thesis
    by (simp only: if_True)
next
  case False
  then have "same_on Position
          (snd (load_blocks [Position, Items, Variables, Dialog] opts snapshot b)) b"
    by (intro load_blocks_frame) simp
  with False show ?thesis
    by (simp only: restore_blocks if_False)
qed

lemma bitsy_load_stored:
  "localStorage w (key (hackOptions w)) = Some (JsonText snapshot) \<Longrightarrow>
   bitsy (snd (load w)) = snd (restore (hackOptions w) snapshot (bitsy w))"
  by (simp add: load_stored)

lemma saved_by_save:
  assumes "localStorage (save v) (key (hackOptions v)) = Some (JsonText snapshot)"
  shows "saved snapshot name = stored_field (save v) name"
  using assms by (simp add: stored_field_def save_def)

subsection \<open>The feature flags\<close>

lemma disable_keeps:
  "key (disable f opts) = key opts"
  "autosaveInterval (disable f opts) = autosaveInterval opts"
  "loadOnStart (disable f opts) = loadOnStart opts"
  by (cases f; simp)+

lemma disabled_fields_absent:
  "\<not> enabled f opts \<Longrightarrow> set (fields_of f) \<inter> fst ` set (build_snapshot opts b) = {}"
  by (cases f) (auto simp: build_snapshot_keys split: if_splits)

lemma disabled_fields_not_stored:
  assumes "\<not> enabled f (hackOptions w)"
  shows "set (fields_of f) \<inter> set (stored_fields (save w)) = {}"
proof -
  have "set (stored_fields (save w)) \<subseteq> fst ` set (build_snapshot (hackOptions w) (bitsy w))"
    using to_json_props_keys [of "build_snapshot (hackOptions w) (bitsy w)"]
    by (simp add: stored_fields_save)
  with disabled_fields_absent [OF assms, of "bitsy w"] show ?thesis
    by blast
qed

lemma other_fields_stored:
  assumes "g \<noteq> f" and "name \<in> set (fields_of g)"
  shows "stored_field (save (w\<lparr>hackOptions := disable f (hackOptions w)\<rparr>)) name =
         stored_field (save w) name"
proof -
  have "map_of (build_snapshot (disable f opts) b) name = map_of (build_snapshot opts b) name"
    for opts b
    using assms by (cases f; cases g) (auto simp: build_snapshot_lookup)
  then show ?thesis
    by (simp add: stored_field_save)
qed

lemma load_absent: "localStorage w (key (hackOptions w)) = None \<Longrightarrow> load w = (None, w)"
  by (simp add: load_def)

lemma load_other_text:
  "localStorage w (key (hackOptions w)) = Some (OtherText s) \<Longrightarrow>
   load w = (if s = [] then None else Some SyntaxError, w)"
  by (simp add: load_def)

lemma restore_frame: "\<not> enabled f opts \<Longrightarrow> same_on f (snd (restore opts snapshot b)) b"
  unfolding restore_blocks by (rule load_blocks_frame) simp

lemma restore_independent:
  assumes "fst (restore opts snapshot b) = None" and "g \<noteq> f"
  shows "fst (restore (disable f opts) snapshot b) = None \<and>
         same_on g (snd (restore (disable f opts) snapshot b)) (snd (restore opts snapshot b))"
proof -
  have "\<forall>g. g \<noteq> f \<longrightarrow> same_on g b b"
    by (simp add: same_on_refl)
  with assms(1) have
    "fst (load_blocks [Position, Items, Variables, Dialog] (disable f opts) snapshot b) = None \<and>
     (\<forall>g. g \<noteq> f \<longrightarrow>
        same_on g (snd (load_blocks [Position, Items, Variables, Dialog] (disable f opts) snapshot b))
          (snd (load_blocks [Position, Items, Variables, Dialog] opts snapshot b)))"
    unfolding restore_blocks by (rule load_blocks_independent)
  with assms(2) show ?thesis
    unfolding restore_blocks by blast
qed

lemma load_frame_disabled:
  assumes "\<not> enabled f (hackOptions w)"
  shows "same_on f (bitsy (snd (load w))) (bitsy w)"
proof (cases "localStorage w (key (hackOptions w))")
  case None
  then show ?thesis by (simp add: load_absent same_on_refl)
next
  case (Some st)
  show ?thesis
  proof (cases st)
    case (JsonText snapshot)
    with Some assms show ?thesis
      by (simp add: bitsy_load_stored restore_frame)
  next
    case (OtherText s)
    with Some show ?thesis by (simp add: load_other_text same_on_refl)
  qed
qed

lemma load_independent:
  assumes "g \<noteq> f" and "fst (load w) = None"
  shows "fst (load (w\<lparr>hackOptions := disable f (hackOptions w)\<rparr>)) = None \<and>
         same_on g (bitsy (snd (load (w\<lparr>hackOptions := disable f (hackOptions w)\<rparr>))))
           (bitsy (snd (load w)))"
proof -
  let ?w = "w\<lparr>hackOptions := disable f (hackOptions w)\<rparr>"
  have store: "localStorage ?w (key (hackOptions ?w)) = localStorage w (key (hackOptions w))"
    by (simp add: disable_keeps)
  show ?thesis
  proof (cases "localStorage w (key (hackOptions w))")
    case None
    with store show ?thesis by (simp add: load_absent same_on_refl)
  next
    case (Some st)
    show ?thesis
    proof (cases st)
      case (OtherText s)
      with Some store assms(2) show ?thesis
        by (simp add: load_other_text same_on_refl split: if_splits)
    next
      case (JsonText snapshot)
      with Some store have 1: "localStorage w (key (hackOptions w)) = Some (JsonText snapshot)"
        and 2: "localStorage ?w (key (hackOptions ?w)) = Some (JsonText snapshot)"
        by simp_all
      from assms(2) have "fst (restore (hackOptions w) snapshot (bitsy w)) = None"
        by (simp add: load_stored [OF 1])
      from restore_independent [OF this assms(1)] show ?thesis
        by (simp add: load_stored [OF 1] load_stored [OF 2])
    qed
  qed
qed

subsection \<open>Stored data of the wrong shape\<close>

lemma forEach_not_array: "\<not> is_array v \<Longrightarrow> forEach v f s = (Some TypeError, s)"
  by (cases v) (simp_all add: forEach_def)

lemma set_room_items_inventory:
  "set_room_items entry b = Inr b' \<Longrightarrow> player_inventory b' = player_inventory b"
  using set_room_items_same [of entry b b' Position]
  by (auto simp: set_room_items_def split: sum.splits if_splits)

lemma load_items_inventory:
  "player_inventory (snd (load_items snapshot b)) =
     (if truthy (saved snapshot ''inventory'') then saved snapshot ''inventory''
      else player_inventory b)"
proof -
  have "player_inventory (snd (forEach v set_room_items c)) = player_inventory c" for v c
    by (rule forEach_frame) (rule set_room_items_inventory)
  then show ?thesis
    by (cases "nullish snapshot") (simp_all add: load_items_unfold saved_nullish)
qed

lemma restore_items:
  assumes "items opts" and "\<not> nullish snapshot"
  shows "same_on Items (snd (restore opts snapshot b)) (snd (load_items snapshot b))"
proof -
  have "fst (load_blocks [Position] opts snapshot b) = None"
    using assms(2) by (simp add: load_position_error and_then_cases)
  then have "same_on Items
          (snd (load_blocks ([Position] @ Items # [Variables, Dialog]) opts snapshot b))
          (snd (load_block Items snapshot b))"
    using assms(1) by (intro load_blocks_reaches) simp_all
  then show ?thesis
    by (simp only: restore_blocks append.simps load_block.simps)
qed

lemma restore_dialog:
  assumes "dialog opts" and "fst (restore opts snapshot b) = None"
  shows "same_on Dialog (snd (restore opts snapshot b)) (snd (load_dialog snapshot b))"
proof -
  from assms(2)
  have "fst (load_blocks ([Position, Items, Variables] @ [Dialog]) opts snapshot b) = None"
    by (simp only: restore_blocks append.simps)
  then have "fst (load_blocks [Position, Items, Variables] opts snapshot b) = None"
    by (rule load_blocks_prefix_None)
  then have "same_on Dialog
          (snd (load_blocks ([Position, Items, Variables] @ Dialog # []) opts snapshot b))
          (snd (load_block Dialog snapshot b))"
    using assms(1) by (intro load_blocks_reaches) simp_all
  then show ?thesis
    by (simp only: restore_blocks append.simps load_block.simps)
qed

lemma restore_items_throw:
  assumes "position opts" "items opts"
    and "truthy (saved snapshot ''items'')" and "\<not> is_array (saved snapshot ''items'')"
  shows "fst (restore opts snapshot b) = Some TypeError \<and>
         room (snd (restore opts snapshot b)) = room b \<and>
         same_on Variables (snd (restore opts snapshot b)) b \<and>
         same_on Dialog (snd (restore opts snapshot b)) b"
proof -
  from assms(3) have ok: "\<not> nullish snapshot" by (rule saved_truthy)
  define b1 where "b1 = snd (load_position snapshot b)"
  have 1: "load_position snapshot b = (None, b1)"
    using ok by (simp add: b1_def load_position_error prod_eq_iff)
  have 2: "fst (load_items snapshot b1) = Some TypeError"
    and 3: "room (snd (load_items snapshot b1)) = room b1"
    using ok assms(3,4) by (simp_all add: load_items_unfold forEach_not_array)
  have "fst (load_blocks [Position, Items] opts snapshot b) \<noteq> None"
    using 1 2 assms(1,2) by (simp add: and_then_cases)
  then have "load_blocks ([Position, Items] @ [Variables, Dialog]) opts snapshot b =
             load_blocks [Position, Items] opts snapshot b"
    by (rule load_blocks_stops)
  then have r: "restore opts snapshot b = load_items snapshot b1"
    using 1 2 assms(1,2) by (simp add: restore_blocks and_then_cases)
  have "same_on Items b1 b"
    using load_block_frame [of Items Position snapshot b] by (simp add: b1_def)
  with 3 have 4: "room (snd (load_items snapshot b1)) = room b" by simp
  have 5: "same_on g (snd (load_items snapshot b1)) b" if "g \<noteq> Items" "g \<noteq> Position" for g
    using load_block_frame [of g Items snapshot b1] load_block_frame [of g Position snapshot b]
      that
    by (auto simp: b1_def intro: same_on_trans)
  from r 2 4 5 [of Variables] 5 [of Dialog] show ?thesis by simp
qed

lemma restore_variables_throw:
  assumes "position opts" "items opts" "variables opts"
    and "\<not> truthy (saved snapshot ''items'')"
    and "truthy (saved snapshot ''variables'')" and "\<not> is_array (saved snapshot ''variables'')"
  shows "fst (restore opts snapshot b) = Some TypeError \<and>
         same_on Variables (snd (restore opts snapshot b)) b \<and>
         same_on Dialog (snd (restore opts snapshot b)) b"
proof -
  from assms(5) have ok: "\<not> nullish snapshot" by (rule saved_truthy)
  define b2 where "b2 = snd (load_items snapshot (snd (load_position snapshot b)))"
  have 1: "load_blocks [Position, Items] opts snapshot b = (None, b2)"
    using ok assms(1,2,4)
    by (simp add: b2_def load_position_error load_items_unfold and_then_cases prod_eq_iff)
  have 2: "load_variables snapshot b2 = (Some TypeError, b2)"
    using ok assms(5,6) by (simp add: load_variables_unfold forEach_not_array)
  have 3: "load_blocks [Variables] opts snapshot b2 = (Some TypeError, b2)"
    using 2 assms(3) by simp
  have 4: "load_blocks ([Position, Items] @ [Variables]) opts snapshot b = (Some TypeError, b2)"
    by (simp only: load_blocks_append 1 and_then_None 3)
  then have "fst (load_blocks ([Position, Items] @ [Variables]) opts snapshot b) \<noteq> None"
    by simp
  then have "load_blocks (([Position, Items] @ [Variables]) @ [Dialog]) opts snapshot b =
             load_blocks ([Position, Items] @ [Variables]) opts snapshot b"
    by (rule load_blocks_stops)
  with 4 have r: "restore opts snapshot b = (Some TypeError, b2)"
    by (simp only: restore_blocks append.simps)
  have "same_on g b2 b" if "g \<noteq> Items" "g \<noteq> Position" for g
    using load_blocks_frame [of g "[Position, Items]" opts snapshot b] that 1 by simp
  from this [of Variables] this [of Dialog] r show ?thesis by simp
qed

subsection \<open>The hooks\<close>

lemma lt_num_PosInf: "lt_num a PosInf = (a \<noteq> PosInf \<and> a \<noteq> NaN)"
  by (cases a) simp_all

lemma onready_autosave_keeps:
  "hackOptions (onready_autosave w) = hackOptions w"
  "localStorage (onready_autosave w) = localStorage w"
  "bitsy (onready_autosave w) = bitsy w"
  by (simp_all add: onready_autosave_def setInterval_def clearInterval_def split: option.splits)

lemma onready_autosave_off:
  "\<not> lt_num (autosaveInterval (hackOptions w)) PosInf \<Longrightarrow> onready_autosave w = w"
  by (simp add: onready_autosave_def)

lemma onready_autosave_on:
  "lt_num (autosaveInterval (hackOptions w)) PosInf \<Longrightarrow>
   autosaveTimer (onready_autosave w) = Some (Suc (timer_ids w)) \<and>
   intervals (onready_autosave w) =
     intervals (clearInterval (autosaveTimer w) w) @
       [(Suc (timer_ids w), autosaveInterval (hackOptions w))]"
  by (simp add: onready_autosave_def setInterval_def clearInterval_def split: option.splits)

lemma after_onready_keeps:
  "hackOptions (snd (after_onready w)) = hackOptions w"
  "localStorage (snd (after_onready w)) = localStorage w"
  "intervals (snd (after_onready w)) = intervals (onready_autosave w)"
  "autosaveTimer (snd (after_onready w)) = autosaveTimer (onready_autosave w)"
  by (simp_all add: after_onready_def onready_autoload_def load_keeps onready_autosave_keeps)

lemma step_options: "hackOptions (step e w) = hackOptions w"
  by (cases e)
     (simp_all add: after_onready_keeps before_reset_cur_game_def before_startExportedGame_def
        clear_def save_def narrat_tag_def narratJump_def tick_def)

lemma step_intervals:
  "e \<noteq> OnReady \<Longrightarrow> intervals (step e w) = intervals w"
  by (cases e)
     (simp_all add: before_reset_cur_game_def before_startExportedGame_def
        clear_def save_def narrat_tag_def narratJump_def tick_def)

lemma run_never_autosaves:
  assumes "autosaveInterval (hackOptions w) = PosInf" and "intervals w = []"
  shows "hackOptions (run es w) = hackOptions w \<and> intervals (run es w) = []"
  using assms
proof (induction es arbitrary: w)
  case Nil
  then show ?case by simp
next
  case (Cons e es)
  have "intervals (step e w) = []"
  proof (cases "e = OnReady")
    case True
    with Cons.prems show ?thesis
      by (simp add: after_onready_keeps onready_autosave_off)
  next
    case False
    with Cons.prems show ?thesis by (simp add: step_intervals)
  qed
  with Cons.IH [of "step e w"] Cons.prems(1) show ?case
    by (simp add: step_options)
qed

lemma step_store:
  "localStorage (step e w) (key (hackOptions w)) =
     (case e of
        ClearTag \<Rightarrow> None
      | SaveTag \<Rightarrow> localStorage (save w) (key (hackOptions w))
      | Tick h \<Rightarrow> localStorage (tick h w) (key (hackOptions w))
      | ResetCurGame \<Rightarrow>
          if clearOnEnd (hackOptions w) \<and> isEnding (bitsy w) then None
          else localStorage w (key (hackOptions w))
      | StartExportedGame \<Rightarrow>
          if clearOnStart (hackOptions w) then None else localStorage w (key (hackOptions w))
      | _ \<Rightarrow> localStorage w (key (hackOptions w)))"
  by (cases e)
     (simp_all add: after_onready_keeps before_reset_cur_game_def before_startExportedGame_def
        clear_def narrat_tag_def narratJump_def)

lemma save_stores: "localStorage (save w) (key (hackOptions w)) \<noteq> None"
  by (simp add: save_def)

lemma tick_stores:
  "localStorage (tick h w) (key (hackOptions w)) = None \<Longrightarrow>
   localStorage w (key (hackOptions w)) = None"
  by (simp add: tick_def save_def split: if_splits)

subsection \<open>The round trip\<close>

lemma to_json_id:
  "is_json v \<Longrightarrow> to_json v = v"
  "is_json_elems xs \<Longrightarrow> to_json_elems xs = xs"
  "is_json_props ps \<Longrightarrow> to_json_props ps = ps"
  by (induction v and xs and ps rule: to_json_to_json_elems_to_json_props.induct) simp_all

lemma is_json_room_entries:
  "list_all (\<lambda>r. is_json (snd r)) rs \<Longrightarrow>
   is_json_elems (map (\<lambda>r. Arr [Str (fst r), snd r]) rs)"
  by (induction rs) simp_all

lemma is_string_json: "is_string v \<Longrightarrow> is_json v \<and> is_primitive v"
  by (cases v) simp_all

lemma is_json_lookup:
  "list_all (\<lambda>v. is_string (fst v) \<and> is_json (snd v)) vs \<Longrightarrow> map_of vs n = Some v \<Longrightarrow>
   is_json v"
  by (induction vs) (auto split: if_splits)

lemma is_json_variable_entries:
  assumes "list_all (\<lambda>v. is_string (fst v) \<and> is_json (snd v)) (variableMap b)"
  shows "is_json (variable_entries b)"
proof -
  have "is_json_elems (map (\<lambda>n. Arr [n, GetVariable b n]) ns)"
    if "set ns \<subseteq> fst ` set (variableMap b)" for ns
    using that
  proof (induction ns)
    case Nil
    show ?case by simp
  next
    case (Cons n ns)
    then obtain v where v: "map_of (variableMap b) n = Some v"
      by (cases "map_of (variableMap b) n") (auto simp: map_of_eq_None_iff)
    with assms have "is_json v" by (rule is_json_lookup)
    moreover from Cons.prems assms have "is_json n"
      by (auto simp: list_all_iff is_string_json)
    ultimately show ?case
      using Cons v by (simp add: GetVariable_def)
  qed
  from this [of "map fst (variableMap b)"] show ?thesis
    by (simp only: variable_entries_def GetVariableNames_def is_json.simps set_map subset_refl)
qed

lemma snapshot_kept:
  assumes "position opts" "items opts" "variables opts" "dialog opts" and "json_keeps b"
  shows "to_json_props (build_snapshot opts b) = build_snapshot opts b"
proof -
  from assms(5) have "is_json (room_entries b)" "is_json (variable_entries b)"
    by (simp_all add: json_keeps_def room_entries_def is_json_room_entries
          is_json_variable_entries)
  with assms(5) have "is_json_props (build_snapshot opts b)"
    by (simp add: build_snapshot_all [OF assms(1-4)] json_keeps_def)
  then show ?thesis
    by (rule to_json_id)
qed

lemma set_room_items_present:
  "k \<in> fst ` set (room b) \<Longrightarrow>
   set_room_items (Arr [Str k, v]) b = Inr (b\<lparr>room := put (room b) k v\<rparr>)"
  by (simp add: set_room_items_def arr_index_def)

lemma forEach_list_rooms:
  "fst ` set rs \<subseteq> fst ` set (room b) \<Longrightarrow>
   forEach_list set_room_items (map (\<lambda>r. Arr [Str (fst r), snd r]) rs) b =
     (None, b\<lparr>room := foldl (\<lambda>ps r. put ps (fst r) (snd r)) (room b) rs\<rparr>)"
proof (induction rs arbitrary: b)
  case Nil
  show ?case by simp
next
  case (Cons r rs)
  from Cons.prems have "fst r \<in> fst ` set (room b)" by simp
  moreover from Cons.prems
  have "fst ` set rs \<subseteq> fst ` set (room (b\<lparr>room := put (room b) (fst r) (snd r)\<rparr>))"
    by (auto simp: keys_put)
  ultimately show ?case
    using Cons.IH [of "b\<lparr>room := put (room b) (fst r) (snd r)\<rparr>"]
    by (simp add: set_room_items_present)
qed

lemma put_present: "k \<in> fst ` set ps \<Longrightarrow> map fst (put ps k v) = map fst ps"
  by (induction ps) force+

lemma foldl_put_keys:
  "fst ` set rs \<subseteq> fst ` set ps \<Longrightarrow>
   map fst (foldl (\<lambda>ps r. put ps (fst r) (snd r)) ps rs) = map fst ps"
proof (induction rs arbitrary: ps)
  case Nil
  show ?case by simp
next
  case (Cons r rs)
  from Cons.prems have 1: "map fst (put ps (fst r) (snd r)) = map fst ps"
    by (simp add: put_present)
  from Cons.prems have "fst ` set rs \<subseteq> fst ` set (put ps (fst r) (snd r))"
    by (auto simp: keys_put)
  from Cons.IH [OF this] 1 show ?case by simp
qed

lemma foldl_put_lookup:
  "distinct (map fst rs) \<Longrightarrow>
   map_of (foldl (\<lambda>ps r. put ps (fst r) (snd r)) ps rs) k =
     (case map_of rs k of None \<Rightarrow> map_of ps k | Some v \<Rightarrow> Some v)"
proof (induction rs arbitrary: ps)
  case Nil
  show ?case by simp
next
  case (Cons r rs)
  obtain k' v' where r: "r = (k', v')" by (cases r)
  from Cons.prems have "map_of rs k' = None"
    by (simp add: r map_of_eq_None_iff)
  with Cons show ?case
    by (simp add: r map_of_put split: option.splits)
qed

lemma alist_eqI:
  "map fst xs = map fst ys \<Longrightarrow> distinct (map fst xs) \<Longrightarrow> map_of xs = map_of ys \<Longrightarrow> xs = ys"
proof (induction xs arbitrary: ys)
  case Nil
  then show ?case by simp
next
  case (Cons x xs)
  from Cons.prems(1) obtain y ys' where ys: "ys = y # ys'" and k: "fst x = fst y"
    and ks: "map fst xs = map fst ys'"
    by (cases ys) auto
  from fun_cong [OF Cons.prems(3), of "fst x"] k have v: "snd x = snd y"
    by (cases x; cases y) (simp add: ys)
  have "map_of xs = map_of ys'"
  proof
    fix a
    show "map_of xs a = map_of ys' a"
    proof (cases "a = fst x")
      case True
      with Cons.prems(2) ks have "map_of xs a = None" "map_of ys' a = None"
        by (simp_all add: map_of_eq_None_iff flip: set_map)
      then show ?thesis by simp
    next
      case False
      with fun_cong [OF Cons.prems(3), of a] k show ?thesis
        by (cases x; cases y) (simp add: ys split: if_splits)
    qed
  qed
  with Cons.IH [OF ks] Cons.prems(2) have "xs = ys'" by simp
  with k v show ?case
    by (simp add: ys prod_eq_iff)
qed

lemma foldl_put_all:
  assumes "distinct (map fst rs)" and "map fst ps = map fst rs"
  shows "foldl (\<lambda>ps r. put ps (fst r) (snd r)) ps rs = rs"
proof (rule alist_eqI)
  from assms(2) have sub: "fst ` set rs \<subseteq> fst ` set ps"
    by (simp flip: set_map)
  then show keys: "map fst (foldl (\<lambda>ps r. put ps (fst r) (snd r)) ps rs) = map fst rs"
    using assms(2) by (simp add: foldl_put_keys)
  then show "distinct (map fst (foldl (\<lambda>ps r. put ps (fst r) (snd r)) ps rs))"
    using assms(1) by simp
  show "map_of (foldl (\<lambda>ps r. put ps (fst r) (snd r)) ps rs) = map_of rs"
  proof
    fix k
    show "map_of (foldl (\<lambda>ps r. put ps (fst r) (snd r)) ps rs) k = map_of rs k"
    proof (cases "map_of rs k")
      case None
      then have "k \<notin> fst ` set ps"
        using assms(2) by (simp add: map_of_eq_None_iff flip: set_map)
      then have "map_of ps k = None" by (simp add: map_of_eq_None_iff)
      with None show ?thesis by (simp add: foldl_put_lookup [OF assms(1)])
    next
      case (Some v)
      then show ?thesis by (simp add: foldl_put_lookup [OF assms(1)])
    qed
  qed
qed

lemma set_variable_entry_pair:
  "is_primitive n \<Longrightarrow>
   set_variable_entry (Arr [n, v]) b = Inr (b\<lparr>variableMap := put (variableMap b) n v\<rparr>)"
  by (simp add: set_variable_entry_def arr_index_def SetVariable_def)

lemma forEach_list_variables:
  "list_all is_primitive ns \<Longrightarrow>
   forEach_list set_variable_entry (map (\<lambda>n. Arr [n, f n]) ns) b =
     (None, b\<lparr>variableMap := foldl (\<lambda>vm n. put vm n (f n)) (variableMap b) ns\<rparr>)"
proof (induction ns arbitrary: b)
  case Nil
  show ?case by simp
next
  case (Cons n ns)
  then show ?case
    using Cons.IH [of "b\<lparr>variableMap := put (variableMap b) n (f n)\<rparr>"]
    by (simp add: set_variable_entry_pair)
qed

lemma foldl_put_names:
  "map_of (foldl (\<lambda>vm n. put vm n (f n)) vm ns) k =
     (if k \<in> set ns then Some (f k) else map_of vm k)"
  by (induction ns arbitrary: vm) (simp_all add: map_of_put)

lemma restore_saved:
  assumes flags: "position opts" "items opts" "variables opts" "dialog opts"
    and keeps: "json_keeps bs" and guards: "guards_pass bs"
    and rooms: "map fst (room b) = map fst (room bs)"
  shows "restore opts (Obj (build_snapshot opts bs)) b =
     (None,
      b\<lparr>curRoom := curRoom bs, player_room := curRoom bs,
        player_x := player_x bs, player_y := player_y bs,
        player_inventory := player_inventory bs,
        room := room bs,
        variableMap :=
          foldl (\<lambda>vm n. put vm n (GetVariable bs n)) (variableMap b) (GetVariableNames bs),
        sequenceIndices := sequenceIndices bs, shuffles := shuffles bs\<rparr>)"
proof -
  let ?s = "Obj (build_snapshot opts bs)"
  have s: "saved ?s ''room'' = curRoom bs" "saved ?s ''x'' = player_x bs"
    "saved ?s ''y'' = player_y bs" "saved ?s ''inventory'' = player_inventory bs"
    "saved ?s ''items'' = room_entries bs" "saved ?s ''variables'' = variable_entries bs"
    "saved ?s ''sequenceIndices'' = sequenceIndices bs" "saved ?s ''shuffles'' = shuffles bs"
    by (simp_all add: saved_def build_snapshot_lookup flags)
  have ok: "\<not> nullish ?s" by (simp add: nullish_def)
  from guards have t: "truthy (curRoom bs)" "truthy (player_x bs)" "truthy (player_y bs)"
    "truthy (player_inventory bs)" "truthy (sequenceIndices bs)"
    by (simp_all add: guards_pass_def)
  define b1 where "b1 = b\<lparr>curRoom := curRoom bs, player_room := curRoom bs,
        player_x := player_x bs, player_y := player_y bs\<rparr>"
  have p: "load_position ?s b = (None, b1)"
    using t ok by (simp add: prod_eq_iff load_position_error load_position_result s b1_def)
  define b2 where "b2 = b1\<lparr>player_inventory := player_inventory bs, room := room bs\<rparr>"
  have "fst ` set (room bs) \<subseteq> fst ` set (room (b1\<lparr>player_inventory := player_inventory bs\<rparr>))"
    using rooms by (simp add: b1_def flip: set_map)
  from forEach_list_rooms [OF this]
  have "forEach_list set_room_items (map (\<lambda>r. Arr [Str (fst r), snd r]) (room bs))
          (b1\<lparr>player_inventory := player_inventory bs\<rparr>) =
        (None, b1\<lparr>player_inventory := player_inventory bs,
                  room := foldl (\<lambda>ps r. put ps (fst r) (snd r)) (room b) (room bs)\<rparr>)"
    by (simp add: b1_def)
  moreover from keeps rooms
  have "foldl (\<lambda>ps r. put ps (fst r) (snd r)) (room b) (room bs) = room bs"
    by (intro foldl_put_all) (simp_all add: json_keeps_def)
  ultimately have i: "load_items ?s b1 = (None, b2)"
    using t ok by (simp add: load_items_unfold s room_entries_def forEach_def b2_def)
  define b3 where "b3 = b2\<lparr>variableMap :=
      foldl (\<lambda>vm n. put vm n (GetVariable bs n)) (variableMap b) (GetVariableNames bs)\<rparr>"
  from keeps have "list_all is_primitive (GetVariableNames bs)"
    by (auto simp: json_keeps_def GetVariableNames_def list_all_iff is_string_json)
  from forEach_list_variables [OF this, of "GetVariable bs" b2]
  have v: "load_variables ?s b2 = (None, b3)"
    using ok by (simp add: load_variables_unfold s variable_entries_def forEach_def b3_def
          b2_def b1_def)
  have d: "load_dialog ?s b3 =
           (None, b3\<lparr>sequenceIndices := sequenceIndices bs, shuffles := shuffles bs\<rparr>)"
    using t ok by (simp add: prod_eq_iff load_dialog_error load_dialog_result s)
  show ?thesis
    by (simp add: restore_def flags p i v d) (simp add: b3_def b2_def b1_def)
qed

section \<open>Properties of the narrat tag\<close>

text \<open>
  C10. The tag \<open>narrat\<close> passes its first parameter to \<open>narratJump\<close>. When that parameter
  is missing or falsy (\<open>undefined\<close>, the empty string, ...), one warning is written to
  the console and \<open>window.narrat.jump\<close> is not called; when it is truthy,
  \<open>window.narrat.jump\<close> is called once, with that label, and nothing is written.
  Nothing else changes in either case.
\<close>

theorem narrat_tag_guard:
  "(\<not> truthy (arr_index parameters 0) \<longrightarrow>
      narrat_tag parameters w =
        w\<lparr>console := console w @ [''Tried to jump to narrat label, but no label'']\<rparr> \<and>
      narrat_jumps (narrat_tag parameters w) = narrat_jumps w) \<and>
   (truthy (arr_index parameters 0) \<longrightarrow>
      narrat_tag parameters w =
        w\<lparr>narrat_jumps := narrat_jumps w @ [arr_index parameters 0]\<rparr> \<and>
      console (narrat_tag parameters w) = console w) \<and>
   arr_index [] 0 = Undefined \<and>
   \<not> truthy Undefined \<and> \<not> truthy (Str [])"
  by (simp add: narrat_tag_def narratJump_def arr_index_def)

theorem narrat_tag_guard_witness:
  "truthy (arr_index [Str ''intro''] 0) \<and>
   narrat_jumps (narrat_tag [Str ''intro''] example_world) = [Str ''intro''] \<and>
   console (narrat_tag [Str ''intro''] example_world) = [] \<and>
   \<not> truthy (arr_index [] 0) \<and>
   narrat_jumps (narrat_tag [] example_world) = [] \<and>
   console (narrat_tag [] example_world) = [''Tried to jump to narrat label, but no label'']"
  using narrat_tag_guard [of "[Str ''intro'']" example_world]
        narrat_tag_guard [of "[]" example_world]
  by (simp add: arr_index_def example_world_def)

section \<open>Properties of load\<close>

text \<open>
  C2. When nothing is stored under \<open>hackOptions.key\<close>, \<open>load\<close> returns without an error
  and leaves the whole state as it was: the engine (room, position, inventory, items
  of the rooms, variables, sequence indices, shuffles) and everything else.
\<close>

theorem load_without_snapshot:
  "localStorage w (key (hackOptions w)) = None \<Longrightarrow> load w = (None, w)"
  by (simp add: load_def)

theorem load_without_snapshot_witness:
  "localStorage example_world (key (hackOptions example_world)) = None \<and>
   load example_world = (None, example_world)"
  using load_without_snapshot [of example_world]
  by (simp add: example_world_def)

section \<open>Properties of save and clear\<close>

text \<open>
  C3. \<open>save\<close> writes under the one key \<open>hackOptions.key\<close> and nowhere else, and none of
  \<open>save\<close>, \<open>load\<close> and \<open>clear\<close> changes the options. So after any sequence of the three
  operations every other key of the store holds what it held before, and a store that
  held nothing under another key holds at most the one snapshot. What \<open>save\<close> stores is
  the text of the record it has just built from the engine, whatever was stored before
  (a full overwrite); \<open>clear\<close> removes the key.
\<close>

theorem single_slot:
  "hackOptions (perform_all ps w) = hackOptions w \<and>
   (\<forall>k. k \<noteq> key (hackOptions w) \<longrightarrow> localStorage (perform_all ps w) k = localStorage w k) \<and>
   (dom (localStorage w) \<subseteq> {key (hackOptions w)} \<longrightarrow>
      dom (localStorage (perform_all ps w)) \<subseteq> {key (hackOptions w)}) \<and>
   localStorage (save w) (key (hackOptions w)) =
     Some (JSON_stringify (Obj (build_snapshot (hackOptions w) (bitsy w)))) \<and>
   localStorage (save (w\<lparr>localStorage := old\<rparr>)) (key (hackOptions w)) =
     localStorage (save w) (key (hackOptions w)) \<and>
   localStorage (clear w) (key (hackOptions w)) = None"
proof -
  have "dom (localStorage (perform_all ps w)) \<subseteq> {key (hackOptions w)}"
    if "dom (localStorage w) \<subseteq> {key (hackOptions w)}"
  proof
    fix k assume k: "k \<in> dom (localStorage (perform_all ps w))"
    show "k \<in> {key (hackOptions w)}"
    proof (rule ccontr)
      assume other: "k \<notin> {key (hackOptions w)}"
      then have "localStorage (perform_all ps w) k = localStorage w k"
        by (simp add: perform_all_other_keys)
      with k have "k \<in> dom (localStorage w)"
        by (simp add: dom_def)
      with that other show False by blast
    qed
  qed
  then show ?thesis
    by (simp add: perform_all_options perform_all_other_keys save_def clear_def)
qed

theorem single_slot_witness:
  "dom (localStorage example_world) \<subseteq> {key (hackOptions example_world)} \<and>
   dom (localStorage (perform_all [Save, Load, Save, Clear, Save] example_world))
     \<subseteq> {key (hackOptions example_world)} \<and>
   ''other'' \<noteq> key (hackOptions example_world) \<and>
   localStorage (perform_all [Save, Load, Save, Clear, Save] example_world) ''other'' =
     localStorage example_world ''other''"
proof -
  have 1: "dom (localStorage example_world) \<subseteq> {key (hackOptions example_world)}"
    by (simp add: example_world_def)
  have 2: "''other'' \<noteq> key (hackOptions example_world)"
    by (simp add: example_world_def default_options_def)
  from 1 2 single_slot [of "[Save, Load, Save, Clear, Save]" example_world]
  show ?thesis by blast
qed

text \<open>
  C4. With the four flags on, the record that \<open>save\<close> builds has exactly the fields
  \<open>room\<close>, \<open>x\<close>, \<open>y\<close>, \<open>inventory\<close>, \<open>items\<close>, \<open>variables\<close>, \<open>sequenceIndices\<close> and \<open>shuffles\<close>: the
  current room, the player's coordinates, the player's inventory, one pair of a room's
  id and its items for every room, one pair of a name and its value for every dialog
  variable, and the two tables of the dialog state. \<open>save\<close> stores the JSON text of that
  record, and the text has the same eight fields and no other as long as none of the
  saved engine values is \<open>undefined\<close> (a property whose value is \<open>undefined\<close> has no
  JSON text).
\<close>

theorem snapshot_contents:
  assumes "position (hackOptions w)" and "items (hackOptions w)"
    and "variables (hackOptions w)" and "dialog (hackOptions w)"
  shows
    "build_snapshot (hackOptions w) (bitsy w) =
       [(''room'', curRoom (bitsy w)),
        (''x'', player_x (bitsy w)),
        (''y'', player_y (bitsy w)),
        (''inventory'', player_inventory (bitsy w)),
        (''items'', Arr (map (\<lambda>r. Arr [Str (fst r), snd r]) (room (bitsy w)))),
        (''variables'',
           Arr (map (\<lambda>variable. Arr [variable, GetVariable (bitsy w) variable])
                  (GetVariableNames (bitsy w)))),
        (''sequenceIndices'', sequenceIndices (bitsy w)),
        (''shuffles'', shuffles (bitsy w))] \<and>
     localStorage (save w) (key (hackOptions w)) =
       Some (JsonText (to_json (Obj (build_snapshot (hackOptions w) (bitsy w))))) \<and>
     (Undefined \<notin> {curRoom (bitsy w), player_x (bitsy w), player_y (bitsy w),
                     player_inventory (bitsy w), sequenceIndices (bitsy w), shuffles (bitsy w)} \<longrightarrow>
        stored_fields (save w) =
          [''room'', ''x'', ''y'', ''inventory'', ''items'', ''variables'',
           ''sequenceIndices'', ''shuffles''])"
proof -
  have 1: "build_snapshot (hackOptions w) (bitsy w) =
       [(''room'', curRoom (bitsy w)), (''x'', player_x (bitsy w)), (''y'', player_y (bitsy w)),
        (''inventory'', player_inventory (bitsy w)), (''items'', room_entries (bitsy w)),
        (''variables'', variable_entries (bitsy w)),
        (''sequenceIndices'', sequenceIndices (bitsy w)), (''shuffles'', shuffles (bitsy w))]"
    using assms by (rule build_snapshot_all)
  have 2: "localStorage (save w) (key (hackOptions w)) =
       Some (JsonText (to_json (Obj (build_snapshot (hackOptions w) (bitsy w)))))"
    by (simp add: save_def JSON_stringify_def)
  have 3: "stored_fields (save w) =
          [''room'', ''x'', ''y'', ''inventory'', ''items'', ''variables'',
           ''sequenceIndices'', ''shuffles'']"
    if "Undefined \<notin> {curRoom (bitsy w), player_x (bitsy w), player_y (bitsy w),
                     player_inventory (bitsy w), sequenceIndices (bitsy w), shuffles (bitsy w)}"
  proof -
    from that have "curRoom (bitsy w) \<noteq> Undefined" "player_x (bitsy w) \<noteq> Undefined"
      "player_y (bitsy w) \<noteq> Undefined" "player_inventory (bitsy w) \<noteq> Undefined"
      "sequenceIndices (bitsy w) \<noteq> Undefined" "shuffles (bitsy w) \<noteq> Undefined"
      by auto
    then show ?thesis
      by (simp add: stored_fields_save 1 to_json_props_defined room_entries_def
            variable_entries_def)
  qed
  from 1 2 3 show ?thesis
    by (simp add: room_entries_def variable_entries_def)
qed

theorem snapshot_contents_witness:
  "position (hackOptions example_world) \<and> items (hackOptions example_world) \<and>
   variables (hackOptions example_world) \<and> dialog (hackOptions example_world) \<and>
   localStorage (save example_world) ''snapshot'' =
     Some (JsonText (Obj
       [(''room'', Str ''0''), (''x'', Num (Fin 4)), (''y'', Num (Fin 7)),
        (''inventory'', Obj [(''tea'', Num (Fin 2))]),
        (''items'',
           Arr [Arr [Str ''0'',
                     Arr [Obj [(''id'', Str ''tea''), (''x'', Num (Fin 3)), (''y'', Num (Fin 5))]]],
                Arr [Str ''1'', Arr []]]),
        (''variables'', Arr [Arr [Str ''a'', Num (Fin 42)]]),
        (''sequenceIndices'', Obj [(''2'', Num (Fin 1))]),
        (''shuffles'', Obj [])])) \<and>
   stored_fields (save example_world) =
     [''room'', ''x'', ''y'', ''inventory'', ''items'', ''variables'',
      ''sequenceIndices'', ''shuffles'']"
  using snapshot_contents [of example_world]
  by (simp add: example_world_def default_options_def example_engine_def
        GetVariable_def GetVariableNames_def)

section \<open>Properties of load after save\<close>

text \<open>
  C9. The guards of the position block test the saved values for truthiness, not for
  presence. Whatever is stored: unless the saved \<open>x\<close> and the saved \<open>y\<close> are both truthy,
  \<open>load\<close> leaves the player's \<open>x\<close> and \<open>y\<close> as they are, both of them; when both are
  truthy (and the flag \<open>position\<close> is on) it assigns both. Likewise the current room is
  left alone unless the saved \<open>room\<close> is truthy. The number \<open>0\<close> is falsy, so a snapshot
  that \<open>save\<close> wrote while the player stood at \<open>x = 0\<close> or \<open>y = 0\<close> leaves the position
  unrestored.
\<close>

theorem position_guard_falsy:
  assumes "localStorage w (key (hackOptions w)) = Some (JsonText snapshot)"
  shows
    "(\<not> (truthy (saved snapshot ''x'') \<and> truthy (saved snapshot ''y'')) \<longrightarrow>
        player_x (bitsy (snd (load w))) = player_x (bitsy w) \<and>
        player_y (bitsy (snd (load w))) = player_y (bitsy w)) \<and>
     (position (hackOptions w) \<and> truthy (saved snapshot ''x'') \<and> truthy (saved snapshot ''y'') \<longrightarrow>
        player_x (bitsy (snd (load w))) = saved snapshot ''x'' \<and>
        player_y (bitsy (snd (load w))) = saved snapshot ''y'') \<and>
     (\<not> truthy (saved snapshot ''room'') \<longrightarrow>
        curRoom (bitsy (snd (load w))) = curRoom (bitsy w) \<and>
        player_room (bitsy (snd (load w))) = player_room (bitsy w)) \<and>
     (position (hackOptions w) \<and> truthy (saved snapshot ''room'') \<longrightarrow>
        curRoom (bitsy (snd (load w))) = saved snapshot ''room'' \<and>
        player_room (bitsy (snd (load w))) = saved snapshot ''room'') \<and>
     (localStorage (save v) (key (hackOptions v)) = Some (JsonText snapshot) \<and>
      position (hackOptions v) \<and>
      (player_x (bitsy v) = Num (Fin 0) \<or> player_y (bitsy v) = Num (Fin 0)) \<longrightarrow>
        player_x (bitsy (snd (load w))) = player_x (bitsy w) \<and>
        player_y (bitsy (snd (load w))) = player_y (bitsy w))"
proof -
  let ?b = "bitsy w" and ?b' = "bitsy (snd (load w))"
  have same: "same_on Position ?b'
      (if position (hackOptions w) then snd (load_position snapshot ?b) else ?b)"
    using restore_position [of "hackOptions w" snapshot ?b] assms
    by (simp add: bitsy_load_stored)
  have xy: "player_x ?b' = player_x ?b \<and> player_y ?b' = player_y ?b"
    if "\<not> (truthy (saved snapshot ''x'') \<and> truthy (saved snapshot ''y''))"
    using same that by (auto simp: load_position_result Let_def split: if_splits)
  have xy': "player_x ?b' = saved snapshot ''x'' \<and> player_y ?b' = saved snapshot ''y''"
    if "position (hackOptions w)" "truthy (saved snapshot ''x'')" "truthy (saved snapshot ''y'')"
    using same that by (simp add: load_position_result Let_def)
  have r: "curRoom ?b' = curRoom ?b \<and> player_room ?b' = player_room ?b"
    if "\<not> truthy (saved snapshot ''room'')"
    using same that by (auto simp: load_position_result Let_def split: if_splits)
  have r': "curRoom ?b' = saved snapshot ''room'' \<and> player_room ?b' = saved snapshot ''room''"
    if "position (hackOptions w)" "truthy (saved snapshot ''room'')"
    using same that by (simp add: load_position_result Let_def)
  have zero: "\<not> (truthy (saved snapshot ''x'') \<and> truthy (saved snapshot ''y''))"
    if "localStorage (save v) (key (hackOptions v)) = Some (JsonText snapshot)"
      and "position (hackOptions v)"
      and "player_x (bitsy v) = Num (Fin 0) \<or> player_y (bitsy v) = Num (Fin 0)"
  proof -
    from that(2) have "saved snapshot ''x'' = to_json (player_x (bitsy v))"
      and "saved snapshot ''y'' = to_json (player_y (bitsy v))"
      by (simp_all add: saved_by_save [OF that(1)] stored_field_save build_snapshot_lookup)
    with that(3) show ?thesis by auto
  qed
  from xy xy' r r' zero show ?thesis by blast
qed

theorem position_guard_falsy_witness:
  "localStorage restarted_world (key (hackOptions restarted_world)) =
     Some (JsonText edge_snapshot) \<and>
   localStorage (save (example_world\<lparr>bitsy := edge_engine\<rparr>))
     (key (hackOptions (example_world\<lparr>bitsy := edge_engine\<rparr>))) =
     Some (JsonText edge_snapshot) \<and>
   position (hackOptions (example_world\<lparr>bitsy := edge_engine\<rparr>)) \<and>
   player_x (bitsy (example_world\<lparr>bitsy := edge_engine\<rparr>)) = Num (Fin 0) \<and>
   saved edge_snapshot ''x'' = Num (Fin 0) \<and>
   saved edge_snapshot ''y'' = Num (Fin 9) \<and>
   saved edge_snapshot ''room'' = Str ''1'' \<and>
   position (hackOptions restarted_world) \<and>
   player_x (bitsy (snd (load restarted_world))) = Num (Fin 4) \<and>
   player_y (bitsy (snd (load restarted_world))) = Num (Fin 7) \<and>
   curRoom (bitsy (snd (load restarted_world))) = Str ''1''"
proof -
  have 1: "localStorage restarted_world (key (hackOptions restarted_world)) =
             Some (JsonText edge_snapshot)"
    by code_simp
  have 2: "saved edge_snapshot ''x'' = Num (Fin 0)" "saved edge_snapshot ''y'' = Num (Fin 9)"
    "saved edge_snapshot ''room'' = Str ''1''"
    by code_simp+
  have 3: "position (hackOptions restarted_world)"
    "player_x (bitsy restarted_world) = Num (Fin 4)"
    "player_y (bitsy restarted_world) = Num (Fin 7)"
    by code_simp+
  have 4: "localStorage (save (example_world\<lparr>bitsy := edge_engine\<rparr>))
             (key (hackOptions (example_world\<lparr>bitsy := edge_engine\<rparr>))) =
           Some (JsonText edge_snapshot)"
    "position (hackOptions (example_world\<lparr>bitsy := edge_engine\<rparr>))"
    "player_x (bitsy (example_world\<lparr>bitsy := edge_engine\<rparr>)) = Num (Fin 0)"
    by code_simp+
  from position_guard_falsy
         [where w = restarted_world and snapshot = edge_snapshot
            and v = "example_world\<lparr>bitsy := edge_engine\<rparr>", OF 1]
    1 2 3 4
  show ?thesis
    by simp
qed

text \<open>
  C1, as the code has it. With the four flags on, take an engine state that a snapshot
  can carry (every saved value a JSON value, the variables' names strings) and in which
  the values that \<open>load\<close> tests are truthy: the current room, the player's \<open>x\<close> and \<open>y\<close>,
  the inventory and the table of sequence indices. After \<open>save\<close> there, and after any
  change of the engine that keeps the ids of the rooms, \<open>load\<close> returns without an
  error and the current room, the player's \<open>x\<close> and \<open>y\<close>, the inventory, the items of
  every room, the value of every variable that was saved, the sequence indices and the
  shuffles are what they were at the save.
\<close>

theorem round_trip:
  assumes "position (hackOptions w)" and "items (hackOptions w)"
    and "variables (hackOptions w)" and "dialog (hackOptions w)"
    and "json_keeps (bitsy w)" and "guards_pass (bitsy w)"
    and "map fst (room b) = map fst (room (bitsy w))"
  shows
    "fst (load ((save w)\<lparr>bitsy := b\<rparr>)) = None \<and>
     curRoom (bitsy (snd (load ((save w)\<lparr>bitsy := b\<rparr>)))) = curRoom (bitsy w) \<and>
     player_x (bitsy (snd (load ((save w)\<lparr>bitsy := b\<rparr>)))) = player_x (bitsy w) \<and>
     player_y (bitsy (snd (load ((save w)\<lparr>bitsy := b\<rparr>)))) = player_y (bitsy w) \<and>
     player_inventory (bitsy (snd (load ((save w)\<lparr>bitsy := b\<rparr>)))) =
       player_inventory (bitsy w) \<and>
     room (bitsy (snd (load ((save w)\<lparr>bitsy := b\<rparr>)))) = room (bitsy w) \<and>
     (\<forall>n \<in> set (GetVariableNames (bitsy w)).
        GetVariable (bitsy (snd (load ((save w)\<lparr>bitsy := b\<rparr>)))) n = GetVariable (bitsy w) n) \<and>
     sequenceIndices (bitsy (snd (load ((save w)\<lparr>bitsy := b\<rparr>)))) =
       sequenceIndices (bitsy w) \<and>
     shuffles (bitsy (snd (load ((save w)\<lparr>bitsy := b\<rparr>)))) = shuffles (bitsy w)"
proof -
  let ?w = "(save w)\<lparr>bitsy := b\<rparr>"
  have "localStorage ?w (key (hackOptions ?w)) =
        Some (JsonText (Obj (build_snapshot (hackOptions w) (bitsy w))))"
    using snapshot_kept [OF assms(1-5)] by (simp add: save_def JSON_stringify_def)
  from load_stored [OF this]
  have "load ?w =
        (fst (restore (hackOptions w) (Obj (build_snapshot (hackOptions w) (bitsy w))) b),
         ?w\<lparr>bitsy := snd (restore (hackOptions w)
                          (Obj (build_snapshot (hackOptions w) (bitsy w))) b)\<rparr>)"
    by (simp add: save_def)
  then show ?thesis
    unfolding restore_saved [OF assms]
    by (simp add: GetVariable_def foldl_put_names)
qed

theorem round_trip_witness:
  "position (hackOptions example_world) \<and> items (hackOptions example_world) \<and>
   variables (hackOptions example_world) \<and> dialog (hackOptions example_world) \<and>
   json_keeps (bitsy example_world) \<and> guards_pass (bitsy example_world) \<and>
   map fst (room edge_engine) = map fst (room (bitsy example_world)) \<and>
   fst (load ((save example_world)\<lparr>bitsy := edge_engine\<rparr>)) = None \<and>
   curRoom (bitsy (snd (load ((save example_world)\<lparr>bitsy := edge_engine\<rparr>)))) = Str ''0'' \<and>
   player_x (bitsy (snd (load ((save example_world)\<lparr>bitsy := edge_engine\<rparr>)))) = Num (Fin 4) \<and>
   player_y (bitsy (snd (load ((save example_world)\<lparr>bitsy := edge_engine\<rparr>)))) = Num (Fin 7) \<and>
   player_inventory (bitsy (snd (load ((save example_world)\<lparr>bitsy := edge_engine\<rparr>)))) =
     Obj [(''tea'', Num (Fin 2))] \<and>
   room (bitsy (snd (load ((save example_world)\<lparr>bitsy := edge_engine\<rparr>)))) =
     room example_engine \<and>
   GetVariable (bitsy (snd (load ((save example_world)\<lparr>bitsy := edge_engine\<rparr>)))) (Str ''a'') =
     Num (Fin 42) \<and>
   sequenceIndices (bitsy (snd (load ((save example_world)\<lparr>bitsy := edge_engine\<rparr>)))) =
     Obj [(''2'', Num (Fin 1))] \<and>
   shuffles (bitsy (snd (load ((save example_world)\<lparr>bitsy := edge_engine\<rparr>)))) = Obj []"
proof -
  have h: "position (hackOptions example_world)" "items (hackOptions example_world)"
    "variables (hackOptions example_world)" "dialog (hackOptions example_world)"
    "json_keeps (bitsy example_world)" "guards_pass (bitsy example_world)"
    "map fst (room edge_engine) = map fst (room (bitsy example_world))"
    by code_simp+
  have v: "bitsy example_world = example_engine"
    "Str ''a'' \<in> set (GetVariableNames example_engine)"
    "GetVariable example_engine (Str ''a'') = Num (Fin 42)"
    "curRoom example_engine = Str ''0''" "player_x example_engine = Num (Fin 4)"
    "player_y example_engine = Num (Fin 7)"
    "player_inventory example_engine = Obj [(''tea'', Num (Fin 2))]"
    "sequenceIndices example_engine = Obj [(''2'', Num (Fin 1))]"
    "shuffles example_engine = Obj []"
    by (simp_all add: example_world_def example_engine_def GetVariableNames_def GetVariable_def)
  from round_trip [OF h] h v show ?thesis
    by simp
qed

text \<open>
  C1, as the spec states it, holds of every game state. It does not. The snapshot is
  JSON, which has no text for \<open>Infinity\<close>: a variable that holds it (after a division
  by zero) is \<open>null\<close> after \<open>save\<close> and \<open>load\<close>, with nothing else happening in between.
  And \<open>load\<close> assigns the position only when the saved coordinates are truthy: a game
  saved with the player in room \<open>1\<close> at \<open>(0, 9)\<close> and started again, which puts the
  player at \<open>(4, 7)\<close>, has the room restored by \<open>load\<close> but the player left at
  \<open>(4, 7)\<close>.
\<close>

theorem round_trip_fails:
  "player_x edge_engine = Num (Fin 0) \<and>
   player_y edge_engine = Num (Fin 9) \<and>
   fst (load restarted_world) = None \<and>
   curRoom (bitsy (snd (load restarted_world))) = curRoom edge_engine \<and>
   player_x (bitsy (snd (load restarted_world))) = Num (Fin 4) \<and>
   player_y (bitsy (snd (load restarted_world))) = Num (Fin 7) \<and>
   GetVariable (bitsy infinite_world) (Str ''a'') = Num PosInf \<and>
   fst (load (save infinite_world)) = None \<and>
   GetVariable (bitsy (snd (load (save infinite_world)))) (Str ''a'') = Null"
  by code_simp

section \<open>Properties of the feature flags\<close>

text \<open>
  C5, as the code has it. For each of the flags \<open>position\<close>, \<open>items\<close>, \<open>variables\<close> and
  \<open>dialog\<close>: when the flag is false, \<open>save\<close> leaves the flag's fields out of the record
  and of the stored text, and \<open>load\<close> leaves the flag's part of the engine as it is,
  whatever is stored and whether or not \<open>load\<close> throws. Switching a flag off does not
  change what \<open>save\<close> stores in the fields of the other flags. It does not change what
  \<open>load\<close> does to the parts of the other flags either, provided that \<open>load\<close> returns
  without an error while the flag is on.
\<close>

theorem feature_flag_frame:
  "(\<not> enabled f (hackOptions w) \<longrightarrow>
      set (fields_of f) \<inter> fst ` set (build_snapshot (hackOptions w) (bitsy w)) = {} \<and>
      set (fields_of f) \<inter> set (stored_fields (save w)) = {} \<and>
      same_on f (bitsy (snd (load w))) (bitsy w)) \<and>
   (g \<noteq> f \<and> name \<in> set (fields_of g) \<longrightarrow>
      stored_field (save (w\<lparr>hackOptions := disable f (hackOptions w)\<rparr>)) name =
      stored_field (save w) name) \<and>
   (g \<noteq> f \<and> fst (load w) = None \<longrightarrow>
      fst (load (w\<lparr>hackOptions := disable f (hackOptions w)\<rparr>)) = None \<and>
      same_on g (bitsy (snd (load (w\<lparr>hackOptions := disable f (hackOptions w)\<rparr>))))
        (bitsy (snd (load w))))"
  using disabled_fields_absent [of f "hackOptions w" "bitsy w"]
    disabled_fields_not_stored [of f w] load_frame_disabled [of f w]
    other_fields_stored [of g f name w] load_independent [of g f w]
  by blast

theorem feature_flag_frame_witness:
  "\<not> enabled Position (hackOptions position_off_world) \<and>
   set (fields_of Position) \<inter> set (stored_fields (save position_off_world)) = {} \<and>
   same_on Position (bitsy (snd (load position_off_world))) (bitsy position_off_world) \<and>
   Items \<noteq> Position \<and> ''inventory'' \<in> set (fields_of Items) \<and>
   stored_field (save position_off_world) ''inventory'' =
     stored_field (save restarted_world) ''inventory'' \<and>
   fst (load restarted_world) = None \<and>
   fst (load position_off_world) = None \<and>
   same_on Items (bitsy (snd (load position_off_world))) (bitsy (snd (load restarted_world)))"
proof -
  have 1: "\<not> enabled Position (hackOptions position_off_world)"
    by (simp add: position_off_world_def)
  have 2: "Items \<noteq> Position" "''inventory'' \<in> set (fields_of Items)"
    by simp_all
  have 3: "fst (load restarted_world) = None"
    by code_simp
  from 1 2 3 feature_flag_frame [of Position position_off_world Items "''inventory''"]
    feature_flag_frame [of Position restarted_world Items "''inventory''"]
  show ?thesis
    unfolding position_off_world_def [symmetric] by blast
qed

text \<open>
  C5, as the spec states it, says that the other flags' fields are unaffected without
  that proviso. They are not: a block that throws ends \<open>load\<close>, so the blocks after it
  run only when its flag is off. Here the stored snapshot names a room that the game
  no longer has. With \<open>items\<close> on, \<open>load\<close> throws in the loop over the items and the
  variable keeps its value \<open>42\<close>; with \<open>items\<close> off, the variable is restored to \<open>1\<close>.
\<close>

theorem disabled_flag_affects_others:
  "fst (load stale_world) = Some TypeError \<and>
   GetVariable (bitsy (snd (load stale_world))) (Str ''a'') = Num (Fin 42) \<and>
   fst (load (stale_world\<lparr>hackOptions := disable Items (hackOptions stale_world)\<rparr>)) = None \<and>
   GetVariable
     (bitsy (snd (load (stale_world\<lparr>hackOptions := disable Items (hackOptions stale_world)\<rparr>))))
     (Str ''a'') = Num (Fin 1)"
  by code_simp

section \<open>Properties of load on stored data of any shape\<close>





section \<open>Properties of the hooks\<close>



text \<open>
  C7, as the code has it. Of all the ways in which the host runs the hack, three remove
  a stored snapshot and no other does: the tag \<open>clear\<close>; the hook before
  \<open>reset_cur_game\<close>, when \<open>clearOnEnd\<close> is true and the engine's \<open>isEnding\<close> is set; and the
  hook before \<open>startExportedGame\<close>, when \<open>clearOnStart\<close> is true. A reset with
  \<open>clearOnEnd\<close> false, or while \<open>isEnding\<close> is false, changes nothing at all.
\<close>

theorem snapshot_removed_by:
  "(removes_snapshot e w \<longleftrightarrow>
      localStorage w (key (hackOptions w)) \<noteq> None \<and>
      (e = ClearTag \<or>
       e = ResetCurGame \<and> clearOnEnd (hackOptions w) \<and> isEnding (bitsy w) \<or>
       e = StartExportedGame \<and> clearOnStart (hackOptions w))) \<and>
   (\<not> clearOnEnd (hackOptions w) \<or> \<not> isEnding (bitsy w) \<longrightarrow> step ResetCurGame w = w)"
proof -
  have "step ResetCurGame w = w" if "\<not> clearOnEnd (hackOptions w) \<or> \<not> isEnding (bitsy w)"
    using that by (auto simp: before_reset_cur_game_def)
  moreover have "removes_snapshot e w \<longleftrightarrow>
      localStorage w (key (hackOptions w)) \<noteq> None \<and>
      (e = ClearTag \<or>
       e = ResetCurGame \<and> clearOnEnd (hackOptions w) \<and> isEnding (bitsy w) \<or>
       e = StartExportedGame \<and> clearOnStart (hackOptions w))"
    unfolding removes_snapshot_def step_store
    using save_stores [of w]
    by (cases e) (auto dest: tick_stores)
  ultimately show ?thesis by blast
qed

theorem snapshot_removed_by_witness:
  "removes_snapshot ClearTag (save example_world) \<and>
   removes_snapshot ResetCurGame ending_world \<and>
   clearOnEnd (hackOptions ending_world) \<and> isEnding (bitsy ending_world) \<and>
   \<not> clearOnEnd (hackOptions (save example_world)) \<and>
   step ResetCurGame (save example_world) = save example_world \<and>
   \<not> removes_snapshot ResetCurGame (save example_world) \<and>
   \<not> removes_snapshot SaveTag (save example_world)"
proof -
  have 1: "localStorage (save example_world) (key (hackOptions (save example_world))) \<noteq> None"
    "\<not> clearOnEnd (hackOptions (save example_world))"
    "\<not> clearOnStart (hackOptions (save example_world))"
    by (simp_all add: save_def example_world_def default_options_def)
  have 2: "localStorage ending_world (key (hackOptions ending_world)) \<noteq> None"
    "clearOnEnd (hackOptions ending_world)" "isEnding (bitsy ending_world)"
    by (simp_all add: ending_world_def save_def example_world_def default_options_def)
  from snapshot_removed_by [of ClearTag "save example_world"]
    snapshot_removed_by [of ResetCurGame ending_world]
    snapshot_removed_by [of ResetCurGame "save example_world"]
    snapshot_removed_by [of SaveTag "save example_world"] 1 2
  show ?thesis by simp
qed

text \<open>
  C7, as the spec states it, names the tag and the reset hook only. With \<open>clearOnStart\<close>
  true (and \<open>clearOnEnd\<close> false) the start of the exported game removes the snapshot.
\<close>

theorem removed_on_start:
  "removes_snapshot StartExportedGame clear_on_start_world \<and>
   StartExportedGame \<noteq> ClearTag \<and> StartExportedGame \<noteq> ResetCurGame \<and>
   \<not> clearOnEnd (hackOptions clear_on_start_world)"
  by (simp add: removes_snapshot_def clear_on_start_world_def before_startExportedGame_def
        clear_def save_def example_world_def default_options_def)

end
